theory Spec2Isabelle
  imports Main
begin

section \<open>Opportuna: the job-listing monitor of \<open>main.py\<close>\<close>

text \<open>
  The program polls two JSON feeds, derives a fingerprint for every listing, and for
  each fingerprint not yet in the SQLite table \<open>seen\<close> sends an e-mail, creates a Notion
  page and records the fingerprint. The embedding follows \<open>main.py\<close> function by
  function. External collaborators (HTTP, SMTP, Notion, the clock) are oracles of an
  environment record; every call to one of them advances a counter, so that the same
  call may answer differently at different times.
\<close>

subsection \<open>Values decoded from JSON\<close>

text \<open>
  \<open>resp.json()\<close> yields Python values: \<open>None\<close>, booleans, integers, strings, lists and
  dictionaries. A dictionary is an association list read with \<open>map_of\<close>; its keys are
  distinct, as those of a Python \<open>dict\<close> are. Strings are byte lists holding the UTF-8
  encoding of the Python string. Numbers with a fractional part are not part of the
  model.
\<close>

datatype json =
    JNull
  | JBool bool
  | JInt int
  | JStr string
  | JList "json list"
  | JDict "(string \<times> json) list"

type_synonym listing = "(string \<times> json) list"

text \<open>Python truthiness, as tested by \<open>if x\<close> and \<open>not x\<close>.\<close>

fun truthy :: "json \<Rightarrow> bool" where
  "truthy JNull = False"
| "truthy (JBool b) = b"
| "truthy (JInt i) = (i \<noteq> 0)"
| "truthy (JStr s) = (s \<noteq> [])"
| "truthy (JList xs) = (xs \<noteq> [])"
| "truthy (JDict kvs) = (kvs \<noteq> [])"

text \<open>\<open>isinstance(x, list)\<close>.\<close>

fun isinstance_list :: "json \<Rightarrow> bool" where
  "isinstance_list (JList xs) = True"
| "isinstance_list v = False"

text \<open>\<open>d.get(k)\<close> gives \<open>None\<close> for a missing key, \<open>d.get(k, default)\<close> the default.\<close>

definition dict_get :: "listing \<Rightarrow> string \<Rightarrow> json" where
  "dict_get d k = (case map_of d k of None \<Rightarrow> JNull | Some v \<Rightarrow> v)"

definition dict_get_default :: "listing \<Rightarrow> string \<Rightarrow> json \<Rightarrow> json" where
  "dict_get_default d k dflt = (case map_of d k of None \<Rightarrow> dflt | Some v \<Rightarrow> v)"

subsection \<open>Formatting values in f-strings\<close>

text \<open>
  An f-string field \<open>{x}\<close> is \<open>str(x)\<close>: a string is inserted as it is, \<open>None\<close> gives
  \<open>None\<close>, a boolean \<open>True\<close> or \<open>False\<close>, an integer its decimal digits. The text of a
  list or a dictionary follows Python's \<open>repr\<close> of its elements; it is taken as a
  parameter \<open>crepr\<close>.
\<close>

definition digit_char :: "nat \<Rightarrow> char" where
  "digit_char n = char_of (48 + n)"

fun nat_digits :: "nat \<Rightarrow> string" where
  "nat_digits n = (if n < 10 then [digit_char n] else nat_digits (n div 10) @ [digit_char (n mod 10)])"

definition int_str :: "int \<Rightarrow> string" where
  "int_str i = (if i < 0 then CHR ''-'' # nat_digits (nat (- i)) else nat_digits (nat i))"

fun py_str :: "(json \<Rightarrow> string) \<Rightarrow> json \<Rightarrow> string" where
  "py_str crepr JNull = ''None''"
| "py_str crepr (JBool b) = (if b then ''True'' else ''False'')"
| "py_str crepr (JInt i) = int_str i"
| "py_str crepr (JStr s) = s"
| "py_str crepr (JList xs) = crepr (JList xs)"
| "py_str crepr (JDict kvs) = crepr (JDict kvs)"

text \<open>A rendering of containers for the worked examples, where no container is formatted.\<close>

definition sample_crepr :: "json \<Rightarrow> string" where
  "sample_crepr v = ''[...]''"

subsection \<open>\<open>get_unique_id\<close> (lines 41 to 68)\<close>

text \<open>
  Line 65: \<open>locations[0] if isinstance(locations, list) and locations else "N/A"\<close>.
\<close>

fun first_location :: "json \<Rightarrow> json" where
  "first_location (JList (x # xs)) = x"
| "first_location v = JStr ''N/A''"

text \<open>
  The result is \<open>None\<close> when a required field is falsy, the fingerprint otherwise. The
  parameter is annotated \<open>dict\<close>; the caller's case of a listing that is no dictionary
  (\<open>.get\<close> raises \<open>AttributeError\<close>) is in \<open>process_listing\<close> below.
\<close>

definition get_unique_id :: "(json \<Rightarrow> string) \<Rightarrow> listing \<Rightarrow> string option" where
  "get_unique_id crepr listing =
     (let company = dict_get listing ''company_name'';
          title = dict_get listing ''title'';
          locations = dict_get listing ''locations''
      in if \<not> truthy company \<or> \<not> truthy title \<or> \<not> truthy locations then None
         else let location = first_location locations
              in Some (py_str crepr company @ ''::'' @ py_str crepr title @ ''::''
                       @ py_str crepr location))"

text \<open>The validation of line 61, as a predicate on the listing.\<close>

definition passes_validation :: "listing \<Rightarrow> bool" where
  "passes_validation listing =
     (truthy (dict_get listing ''company_name'') \<and> truthy (dict_get listing ''title'')
      \<and> truthy (dict_get listing ''locations''))"

subsection \<open>Exceptions\<close>

text \<open>
  The exceptions the program can meet. \<open>HTTPError\<close> (raised by \<open>raise_for_status\<close>) and
  \<open>RequestException\<close> (any other exception of \<open>requests.exceptions\<close>) are what line 94
  catches. \<open>OtherException\<close> is any further subclass of \<open>Exception\<close>. \<open>KeyboardInterrupt\<close>
  and \<open>SystemExit\<close> derive from \<open>BaseException\<close> only, so \<open>except Exception\<close> lets them
  pass. An interrupt is raised by the call to a collaborator, or by the sleep, during
  which it arrives.
\<close>

datatype exn =
    HTTPError int
  | RequestException string
  | SMTPException string
  | TypeError
  | AttributeError
  | IntegrityError
  | OtherException string
  | KeyboardInterrupt
  | SystemExit

fun is_RequestException :: "exn \<Rightarrow> bool" where
  "is_RequestException (HTTPError c) = True"
| "is_RequestException (RequestException m) = True"
| "is_RequestException e = False"

fun is_Exception :: "exn \<Rightarrow> bool" where
  "is_Exception KeyboardInterrupt = False"
| "is_Exception SystemExit = False"
| "is_Exception e = True"

subsection \<open>The table \<open>seen\<close> (lines 32 to 38)\<close>

text \<open>
  The file \<open>seen.db\<close> either has no table \<open>seen\<close> yet or holds its rows. A connection
  sees the committed rows and the rows inserted since the last commit; only committed
  rows survive the process.
\<close>

type_synonym storage = "string list option"

record connection =
  committed :: "string list"
  pending :: "string list"

text \<open>
  Lines 32 to 38: connect, \<open>CREATE TABLE IF NOT EXISTS seen (id TEXT PRIMARY KEY)\<close>,
  commit.
\<close>

definition startup :: "storage \<Rightarrow> connection" where
  "startup file = (case file of
       None \<Rightarrow> \<lparr>committed = [], pending = []\<rparr>
     | Some rows \<Rightarrow> \<lparr>committed = rows, pending = []\<rparr>)"

text \<open>What the file holds when the process is gone.\<close>

definition on_disk :: "connection \<Rightarrow> storage" where
  "on_disk c = Some (committed c)"

definition visible_rows :: "connection \<Rightarrow> string list" where
  "visible_rows c = committed c @ pending c"

text \<open>Line 218 and 219: \<open>SELECT 1 FROM seen WHERE id=?\<close>, then \<open>cur.fetchone()\<close> is a row.\<close>

definition sql_select :: "string \<Rightarrow> connection \<Rightarrow> bool" where
  "sql_select uid c = (uid \<in> set (visible_rows c))"

text \<open>
  Line 276: \<open>INSERT INTO seen(id) VALUES (?)\<close>. The primary key makes SQLite refuse a
  value that is already there (\<open>sqlite3.IntegrityError\<close>), leaving the table as it was.
\<close>

definition sql_insert :: "string \<Rightarrow> connection \<Rightarrow> exn + connection" where
  "sql_insert uid c =
     (if uid \<in> set (visible_rows c) then Inl IntegrityError
      else Inr (c\<lparr>pending := pending c @ [uid]\<rparr>))"

text \<open>Line 277: \<open>conn.commit()\<close>.\<close>

definition sql_commit :: "connection \<Rightarrow> connection" where
  "sql_commit c = \<lparr>committed = committed c @ pending c, pending = []\<rparr>"

text \<open>Lines 276 and 277 in sequence: the insert, then (unless it raised) the commit.\<close>

definition mark_seen :: "string \<Rightarrow> connection \<Rightarrow> exn + connection" where
  "mark_seen uid c = (case sql_insert uid c of Inl e \<Rightarrow> Inl e | Inr c' \<Rightarrow> Inr (sql_commit c'))"

subsection \<open>Collaborators, trace and state\<close>

record response =
  status_code :: int
  json_body :: "exn + json"
  text_body :: string

text \<open>The page properties of lines 169 to 179.\<close>

record notion_page =
  page_company :: json
  page_title :: json
  page_term :: json
  page_locations :: string
  page_date :: "string option"
  page_sponsorship :: json

text \<open>
  \<open>datetime.fromtimestamp\<close> depends on the local time zone and \<open>strftime("%b ...")\<close> on the
  locale, so both belong to the environment, as does \<open>isoformat\<close>. A \<open>datetime\<close> is kept
  as the number the environment chooses for it.
\<close>

type_synonym datetime = int

record env =
  container_repr :: "json \<Rightarrow> string"
  http_get :: "nat \<Rightarrow> string \<Rightarrow> exn + response"
  smtp_send :: "nat \<Rightarrow> string \<Rightarrow> string \<Rightarrow> exn option"
  notion_post :: "nat \<Rightarrow> notion_page \<Rightarrow> exn + response"
  fromtimestamp :: "json \<Rightarrow> exn + datetime"
  strftime_date :: "datetime \<Rightarrow> string"
  isoformat :: "datetime \<Rightarrow> string"
  sleep_interrupted :: "nat \<Rightarrow> bool"

text \<open>
  The trace records the lines printed (\<open>Log...\<close>) and the calls made to the
  collaborators and to the database, in the order of execution.
\<close>

datatype event =
    LogFetchError string exn
  | LogFetched nat
  | LogSkipping json
  | LogNewListing string
  | LogEmailSent json json
  | LogNotionAdded json json
  | LogNotionFailed int string
  | LogErrorProcessing string exn
  | LogAlreadySeen string
  | LogErrorChecking exn
  | LogSleeping
  | LogShuttingDown
  | LogStopped
  | CallGet string
  | CallSendEmail string string
  | CallNotionPost notion_page
  | CallSleep
  | SqlSelect string bool
  | SqlInsert string bool
  | SqlCommit
  | ConnClose

record state =
  conn :: connection
  clock :: nat
  trace :: "event list"

definition emit :: "event list \<Rightarrow> state \<Rightarrow> state" where
  "emit evs st = st\<lparr>trace := trace st @ evs\<rparr>"

definition tick :: "state \<Rightarrow> state" where
  "tick st = st\<lparr>clock := Suc (clock st)\<rparr>"

subsection \<open>Joining and the fields shared by e-mail and archive\<close>

text \<open>\<open>sep.join(xs)\<close> raises \<open>TypeError\<close> when an element is not a string.\<close>

fun as_str :: "json \<Rightarrow> string option" where
  "as_str (JStr s) = Some s"
| "as_str v = None"

fun intercalate :: "string \<Rightarrow> string list \<Rightarrow> string" where
  "intercalate sep [] = []"
| "intercalate sep [s] = s"
| "intercalate sep (s # t # ss) = s @ sep @ intercalate sep (t # ss)"

definition py_join :: "string \<Rightarrow> json list \<Rightarrow> exn + string" where
  "py_join sep xs = (case those (map as_str xs) of
       None \<Rightarrow> Inl TypeError
     | Some ss \<Rightarrow> Inr (intercalate sep ss))"

fun list_items :: "json \<Rightarrow> json list" where
  "list_items (JList xs) = xs"
| "list_items v = []"

text \<open>
  Lines 147 and 148, and again 223 and 224:
  \<open>"; ".join(locations) if locations and isinstance(locations, list) else "N/A"\<close>.
\<close>

definition location_str :: "listing \<Rightarrow> exn + string" where
  "location_str l =
     (let locations = dict_get l ''locations''
      in if truthy locations \<and> isinstance_list locations
         then py_join ''; '' (list_items locations) else Inr ''N/A'')"

text \<open>Lines 156 to 166, and again 238 to 248: \<open>terms\<close> joined, else \<open>season\<close>, else \<open>N/A\<close>.\<close>

definition term_str :: "listing \<Rightarrow> exn + json" where
  "term_str l =
     (let terms = dict_get_default l ''terms'' (JList []);
          season = dict_get l ''season''
      in if truthy terms \<and> isinstance_list terms
         then (case py_join '', '' (list_items terms) of
                 Inl e \<Rightarrow> Inl e | Inr s \<Rightarrow> Inr (JStr s))
         else if truthy season then Inr season
         else Inr (JStr ''N/A''))"

subsection \<open>The notification text (lines 222 to 265)\<close>

definition newline :: string where
  "newline = [CHR 0x0A]"

definition emoji :: "nat \<Rightarrow> nat \<Rightarrow> string" where
  "emoji a b = [CHR 0xF0, CHR 0x9F, char_of a, char_of b]"

text \<open>Lines 227 to 231.\<close>

definition date_posted_str :: "env \<Rightarrow> listing \<Rightarrow> exn + string" where
  "date_posted_str env l =
     (let date_posted_ts = dict_get l ''date_posted''
      in if truthy date_posted_ts
         then (case fromtimestamp env date_posted_ts of
                 Inl e \<Rightarrow> Inl e | Inr dt \<Rightarrow> Inr (strftime_date env dt))
         else Inr ''N/A'')"

definition email_subject :: "env \<Rightarrow> listing \<Rightarrow> string" where
  "email_subject env l =
     emoji 0x8E 0x89 @ '' New Internship Alert: ''
     @ py_str (container_repr env) (dict_get_default l ''company_name'' (JStr ''N/A''))
     @ '' - '' @ py_str (container_repr env) (dict_get_default l ''title'' (JStr ''N/A''))"

definition email_body :: "env \<Rightarrow> listing \<Rightarrow> json \<Rightarrow> string \<Rightarrow> string \<Rightarrow> json \<Rightarrow> string" where
  "email_body env l term location date_posted sponsorship =
     ''Reeled in a new internship for you! '' @ emoji 0x8E 0xA3 @ newline @ newline
     @ emoji 0x8F 0xA2 @ '' Company: ''
     @ py_str (container_repr env) (dict_get_default l ''company_name'' (JStr ''N/A'')) @ newline
     @ emoji 0x92 0xBC @ '' Title: ''
     @ py_str (container_repr env) (dict_get_default l ''title'' (JStr ''N/A'')) @ newline
     @ emoji 0x93 0x85 @ '' Term: '' @ py_str (container_repr env) term @ newline
     @ emoji 0x93 0x8D @ '' Location(s): '' @ location @ newline
     @ emoji 0x97 0x93 @ '' Date Posted: '' @ date_posted @ newline
     @ emoji 0x8E 0xAB @ '' Sponsorship: '' @ py_str (container_repr env) sponsorship @ newline
     @ emoji 0x94 0x97 @ '' Apply here: ''
     @ py_str (container_repr env) (dict_get_default l ''url'' (JStr ''N/A'')) @ newline @ newline
     @ ''Remember to swim fast, the best opportunities don't wait!'' @ newline
     @ ''Opportuna '' @ emoji 0x90 0x9F"

text \<open>
  Subject and body, or the first exception of lines 222 to 248. These lines are outside
  the \<open>try\<close> of line 267.
\<close>

definition format_notification :: "env \<Rightarrow> listing \<Rightarrow> exn + (string \<times> string)" where
  "format_notification env l =
     (case location_str l of
        Inl e \<Rightarrow> Inl e
      | Inr location \<Rightarrow>
          (case date_posted_str env l of
             Inl e \<Rightarrow> Inl e
           | Inr date_posted \<Rightarrow>
               (let sponsorship = dict_get_default l ''sponsorship'' (JStr ''N/A'')
                in case term_str l of
                     Inl e \<Rightarrow> Inl e
                   | Inr term \<Rightarrow>
                       Inr (email_subject env l,
                            email_body env l term location date_posted sponsorship))))"

subsection \<open>\<open>send_email\<close> (lines 101 to 122) and \<open>add_to_notion\<close> (lines 125 to 188)\<close>

text \<open>The SMTP exchange either goes through or raises; nothing is caught here.\<close>

definition send_email :: "env \<Rightarrow> string \<Rightarrow> string \<Rightarrow> state \<Rightarrow> exn option \<times> state" where
  "send_email env subject body st =
     (smtp_send env (clock st) subject body, tick (emit [CallSendEmail subject body] st))"

text \<open>Lines 151 and 152.\<close>

definition date_posted_iso :: "env \<Rightarrow> listing \<Rightarrow> exn + string option" where
  "date_posted_iso env l =
     (let date_posted_ts = dict_get l ''date_posted''
      in if truthy date_posted_ts
         then (case fromtimestamp env date_posted_ts of
                 Inl e \<Rightarrow> Inl e | Inr dt \<Rightarrow> Inr (Some (isoformat env dt)))
         else Inr None)"

definition notion_data :: "env \<Rightarrow> listing \<Rightarrow> exn + notion_page" where
  "notion_data env l =
     (case location_str l of
        Inl e \<Rightarrow> Inl e
      | Inr location \<Rightarrow>
          (case date_posted_iso env l of
             Inl e \<Rightarrow> Inl e
           | Inr date_iso \<Rightarrow>
               (case term_str l of
                  Inl e \<Rightarrow> Inl e
                | Inr term \<Rightarrow>
                    Inr \<lparr>page_company = dict_get_default l ''company_name'' (JStr ''N/A''),
                         page_title = dict_get_default l ''title'' (JStr ''N/A''),
                         page_term = term,
                         page_locations = location,
                         page_date = date_iso,
                         page_sponsorship = dict_get_default l ''sponsorship'' (JStr ''N/A'')\<rparr>)))"

text \<open>
  The function has no \<open>try\<close>: an exception of the preparation or of \<open>requests.post\<close>
  leaves it. A response is only inspected for its status code (line 185).
\<close>

definition add_to_notion :: "env \<Rightarrow> listing \<Rightarrow> state \<Rightarrow> exn option \<times> state" where
  "add_to_notion env l st =
     (case notion_data env l of
        Inl e \<Rightarrow> (Some e, st)
      | Inr data \<Rightarrow>
          (let st1 = tick (emit [CallNotionPost data] st)
           in case notion_post env (clock st) data of
                Inl e \<Rightarrow> (Some e, st1)
              | Inr resp \<Rightarrow>
                  if status_code resp = 200 \<or> status_code resp = 201
                  then (None, emit [LogNotionAdded (dict_get l ''title'')
                                      (dict_get l ''company_name'')] st1)
                  else (None, emit [LogNotionFailed (status_code resp) (text_body resp)] st1)))"

subsection \<open>\<open>fetch_listings\<close> (lines 71 to 98)\<close>

definition JSON_URLS :: "string list" where
  "JSON_URLS =
     [''https://raw.githubusercontent.com/vanshb03/Summer2026-Internships/refs/heads/dev/.github/scripts/listings.json'',
      ''https://raw.githubusercontent.com/SimplifyJobs/Summer2025-Internships/refs/heads/dev/.github/scripts/listings.json'']"

text \<open>\<open>resp.raise_for_status()\<close> raises \<open>HTTPError\<close> for the codes 400 to 599.\<close>

definition bad_status :: "int \<Rightarrow> bool" where
  "bad_status c = (400 \<le> c \<and> c < 600)"

text \<open>
  \<open>results.extend(v)\<close> iterates \<open>v\<close>: a list gives its elements, a dictionary its keys, a
  string its characters (one per code point); any other value raises \<open>TypeError\<close>.
\<close>

definition is_continuation :: "char \<Rightarrow> bool" where
  "is_continuation c = (128 \<le> (of_char c :: nat) \<and> (of_char c :: nat) < 192)"

function utf8_chars :: "string \<Rightarrow> string list" where
  "utf8_chars [] = []"
| "utf8_chars (c # cs) =
     (c # takeWhile is_continuation cs) # utf8_chars (dropWhile is_continuation cs)"
  by pat_completeness auto
termination
  by (relation "measure length") (auto simp: length_dropWhile_le less_Suc_eq_le)

fun py_iter :: "json \<Rightarrow> exn + json list" where
  "py_iter (JList xs) = Inr xs"
| "py_iter (JDict kvs) = Inr (map (\<lambda>kv. JStr (fst kv)) kvs)"
| "py_iter (JStr s) = Inr (map JStr (utf8_chars s))"
| "py_iter v = Inl TypeError"

text \<open>The body of the \<open>try\<close> of lines 86 to 92, for one URL.\<close>

definition fetch_one :: "env \<Rightarrow> string \<Rightarrow> state \<Rightarrow> (exn + json list) \<times> state" where
  "fetch_one env url st =
     (let st1 = tick (emit [CallGet url] st)
      in case http_get env (clock st) url of
           Inl e \<Rightarrow> (Inl e, st1)
         | Inr resp \<Rightarrow>
             if bad_status (status_code resp) then (Inl (HTTPError (status_code resp)), st1)
             else (case json_body resp of
                     Inl e \<Rightarrow> (Inl e, st1)
                   | Inr v \<Rightarrow> (py_iter v, st1)))"

text \<open>
  The loop of line 85 over the remaining URLs, with the list \<open>results\<close> built so far.
  Only a \<open>RequestException\<close> is caught (line 94).
\<close>

fun fetch_from :: "env \<Rightarrow> string list \<Rightarrow> json list \<Rightarrow> state \<Rightarrow> (exn + json list) \<times> state" where
  "fetch_from env [] results st = (Inr results, st)"
| "fetch_from env (url # urls) results st =
     (case fetch_one env url st of
        (Inr items, st1) \<Rightarrow> fetch_from env urls (results @ items) st1
      | (Inl e, st1) \<Rightarrow>
          if is_RequestException e
          then fetch_from env urls results (emit [LogFetchError url e] st1)
          else (Inl e, st1))"

definition fetch_listings :: "env \<Rightarrow> state \<Rightarrow> (exn + json list) \<times> state" where
  "fetch_listings env st = fetch_from env JSON_URLS [] st"

subsection \<open>\<open>check_for_new_jobs\<close> (lines 192 to 284)\<close>

text \<open>The body of the \<open>try\<close> of lines 267 to 277.\<close>

definition try_block :: "env \<Rightarrow> listing \<Rightarrow> string \<Rightarrow> string \<Rightarrow> string \<Rightarrow> state \<Rightarrow> exn option \<times> state" where
  "try_block env l uid subject body st =
     (case send_email env subject body st of
        (Some e, st1) \<Rightarrow> (Some e, st1)
      | (None, st1) \<Rightarrow>
          (let st2 = emit [LogEmailSent (dict_get l ''company_name'') (dict_get l ''title'')] st1
           in case add_to_notion env l st2 of
                (Some e, st3) \<Rightarrow> (Some e, st3)
              | (None, st3) \<Rightarrow>
                  (case mark_seen uid (conn st3) of
                     Inl e \<Rightarrow> (Some e, emit [SqlInsert uid False] st3)
                   | Inr c \<Rightarrow>
                       (None, emit [SqlInsert uid True, SqlCommit] (st3\<lparr>conn := c\<rparr>)))))"

text \<open>Lines 279 and 280: \<open>except Exception as e\<close> logs; anything else goes on rising.\<close>

definition except_Exception :: "string \<Rightarrow> exn option \<times> state \<Rightarrow> exn option \<times> state" where
  "except_Exception uid r =
     (case r of
        (None, st) \<Rightarrow> (None, st)
      | (Some e, st) \<Rightarrow>
          if is_Exception e then (None, emit [LogErrorProcessing uid e] st) else (Some e, st))"

text \<open>Lines 220 to 280, for a listing whose fingerprint is not in the table.\<close>

definition process_new :: "env \<Rightarrow> listing \<Rightarrow> string \<Rightarrow> state \<Rightarrow> exn option \<times> state" where
  "process_new env l uid st =
     (let st1 = emit [LogNewListing uid] st
      in case format_notification env l of
           Inl e \<Rightarrow> (Some e, st1)
         | Inr (subject, body) \<Rightarrow> except_Exception uid (try_block env l uid subject body st1))"

text \<open>
  The body of the loop of line 208. The result is the exception that leaves the loop,
  if any. A listing that is no dictionary has no \<open>get\<close>: line 56 raises
  \<open>AttributeError\<close>. Line 213 skips a fingerprint that is \<open>None\<close> or empty.
\<close>

definition process_listing :: "env \<Rightarrow> json \<Rightarrow> state \<Rightarrow> exn option \<times> state" where
  "process_listing env l st =
     (case l of
        JDict d \<Rightarrow>
          (case get_unique_id (container_repr env) d of
             None \<Rightarrow> (None, emit [LogSkipping l] st)
           | Some uid \<Rightarrow>
               if uid = [] then (None, emit [LogSkipping l] st)
               else (let found = sql_select uid (conn st);
                         st1 = emit [SqlSelect uid found] st
                     in if \<not> found then process_new env d uid st1
                        else (None, emit [LogAlreadySeen uid] st1)))
      | _ \<Rightarrow> (Some AttributeError, st))"

fun process_all :: "env \<Rightarrow> json list \<Rightarrow> state \<Rightarrow> exn option \<times> state" where
  "process_all env [] st = (None, st)"
| "process_all env (l # ls) st =
     (case process_listing env l st of
        (Some e, st1) \<Rightarrow> (Some e, st1)
      | (None, st1) \<Rightarrow> process_all env ls st1)"

definition check_for_new_jobs :: "env \<Rightarrow> state \<Rightarrow> exn option \<times> state" where
  "check_for_new_jobs env st =
     (case fetch_listings env st of
        (Inl e, st1) \<Rightarrow> (Some e, st1)
      | (Inr listings, st1) \<Rightarrow> process_all env listings (emit [LogFetched (length listings)] st1))"

subsection \<open>The monitoring loop (lines 302 to 322)\<close>

text \<open>
  How the process ends: \<open>Stopped\<close> after the \<open>break\<close> of line 310 and the closing lines
  321 and 322, \<open>Died\<close> with an exception that nothing caught. The banner of lines 295 to
  299, printed once before the loop, is left out.
\<close>

datatype exit = Stopped | Died exn

text \<open>
  Lines 317 and 318. \<open>time.sleep\<close> is outside the \<open>try\<close>: an interrupt arriving there is
  not caught.
\<close>

definition sleep_step :: "env \<Rightarrow> state \<Rightarrow> exit option \<times> state" where
  "sleep_step env st =
     (let st1 = tick (emit [LogSleeping, CallSleep] st)
      in if sleep_interrupted env (clock st) then (Some (Died KeyboardInterrupt), st1)
         else (None, st1))"

text \<open>One turn of \<open>while True\<close>; \<open>None\<close> means that the loop goes on.\<close>

definition iteration :: "env \<Rightarrow> state \<Rightarrow> exit option \<times> state" where
  "iteration env st =
     (case check_for_new_jobs env st of
        (None, st1) \<Rightarrow> sleep_step env st1
      | (Some e, st1) \<Rightarrow>
          if e = KeyboardInterrupt
          then (Some Stopped, emit [LogShuttingDown, ConnClose, LogStopped] st1)
          else if is_Exception e then sleep_step env (emit [LogErrorChecking e] st1)
          else (Some (Died e), st1))"

text \<open>
  The loop, run for at most \<open>n\<close> turns; \<open>None\<close> means that it is still running after
  them.
\<close>

fun main_loop :: "env \<Rightarrow> nat \<Rightarrow> state \<Rightarrow> exit option \<times> state" where
  "main_loop env 0 st = (None, st)"
| "main_loop env (Suc n) st =
     (case iteration env st of
        (Some x, st1) \<Rightarrow> (Some x, st1)
      | (None, st1) \<Rightarrow> main_loop env n st1)"

section \<open>Notions used to state the properties\<close>

text \<open>
  A success status is one from 200 to 299. \<open>raise_for_status\<close> is narrower than its
  complement: it rejects the codes 400 to 599 only (\<open>bad_status\<close>).
\<close>

definition non_success_status :: "int \<Rightarrow> bool" where
  "non_success_status c = (\<not> (200 \<le> c \<and> c < 300))"

text \<open>
  A source fails when \<open>requests.get\<close> raises a \<open>RequestException\<close> or the response has a
  status from 400 to 599, the ones that \<open>raise_for_status\<close> rejects; \<open>failure\<close> is the
  exception then logged.
\<close>

definition source_failed :: "env \<Rightarrow> nat \<Rightarrow> string \<Rightarrow> bool" where
  "source_failed env t url =
     (case http_get env t url of
        Inl e \<Rightarrow> is_RequestException e
      | Inr resp \<Rightarrow> bad_status (status_code resp))"

definition failure :: "env \<Rightarrow> nat \<Rightarrow> string \<Rightarrow> exn" where
  "failure env t url =
     (case http_get env t url of
        Inl e \<Rightarrow> e
      | Inr resp \<Rightarrow> HTTPError (status_code resp))"

text \<open>A source succeeds when its response is accepted and its body is a JSON array.\<close>

definition source_listings :: "env \<Rightarrow> nat \<Rightarrow> string \<Rightarrow> json list option" where
  "source_listings env t url =
     (case http_get env t url of
        Inl e \<Rightarrow> None
      | Inr resp \<Rightarrow>
          if bad_status (status_code resp) then None
          else (case json_body resp of
                  Inr (JList xs) \<Rightarrow> Some xs
                | _ \<Rightarrow> None))"

definition contribution :: "env \<Rightarrow> nat \<times> string \<Rightarrow> json list" where
  "contribution env p = (case source_listings env (fst p) (snd p) of None \<Rightarrow> [] | Some xs \<Rightarrow> xs)"

definition fetch_events :: "env \<Rightarrow> nat \<times> string \<Rightarrow> event list" where
  "fetch_events env p =
     (if source_failed env (fst p) (snd p)
      then [CallGet (snd p), LogFetchError (snd p) (failure env (fst p) (snd p))]
      else [CallGet (snd p)])"

definition source_settled :: "env \<Rightarrow> nat \<times> string \<Rightarrow> bool" where
  "source_settled env p =
     (source_failed env (fst p) (snd p) \<or> source_listings env (fst p) (snd p) \<noteq> None)"

text \<open>
  The SQL statements of one turn of the loop of line 208: none, a lookup alone, or a
  lookup that found no row followed by the insert of the same fingerprint and the commit.
\<close>

fun is_sql :: "event \<Rightarrow> bool" where
  "is_sql (SqlSelect u found) = True"
| "is_sql (SqlInsert u ok) = True"
| "is_sql SqlCommit = True"
| "is_sql e = False"

definition sql_block_ok :: "event list \<Rightarrow> bool" where
  "sql_block_ok evs =
     (case evs of
        [] \<Rightarrow> True
      | [e] \<Rightarrow> (case e of SqlSelect u found \<Rightarrow> True | _ \<Rightarrow> False)
      | [e1, e2, e3] \<Rightarrow>
          (case e1 of
             SqlSelect u found \<Rightarrow> \<not> found \<and> e2 = SqlInsert u True \<and> e3 = SqlCommit
           | _ \<Rightarrow> False)
      | _ \<Rightarrow> False)"

text \<open>
  An environment in which no interrupt arrives: the collaborators raise nothing but
  subclasses of \<open>Exception\<close>, and no sleep is interrupted.
\<close>

definition raises_only_errors :: "env \<Rightarrow> bool" where
  "raises_only_errors env =
     ((\<forall>t url e. http_get env t url = Inl e \<longrightarrow> is_Exception e)
      \<and> (\<forall>t url resp e. http_get env t url = Inr resp \<and> json_body resp = Inl e \<longrightarrow> is_Exception e)
      \<and> (\<forall>t subject body e. smtp_send env t subject body = Some e \<longrightarrow> is_Exception e)
      \<and> (\<forall>t page e. notion_post env t page = Inl e \<longrightarrow> is_Exception e)
      \<and> (\<forall>v e. fromtimestamp env v = Inl e \<longrightarrow> is_Exception e)
      \<and> (\<forall>t. \<not> sleep_interrupted env t))"

section \<open>Sample data\<close>

text \<open>Listings for the worked examples. The first two differ outside the identity triple.\<close>

definition listing_a :: listing where
  "listing_a = [(''company_name'', JStr ''Acme''), (''title'', JStr ''SWE Intern''),
     (''locations'', JList [JStr ''NYC'', JStr ''SF'']), (''url'', JStr ''https://a.example/1'')]"

definition listing_b :: listing where
  "listing_b = [(''company_name'', JStr ''Acme''), (''title'', JStr ''SWE Intern''),
     (''locations'', JList [JStr ''NYC'']), (''season'', JStr ''Fall'')]"

definition listing_c :: listing where
  "listing_c = [(''company_name'', JStr ''Acme::Labs''), (''title'', JStr ''Intern''),
     (''locations'', JList [JStr ''NYC''])]"

definition listing_d :: listing where
  "listing_d = [(''company_name'', JStr ''Acme''), (''title'', JStr ''Labs::Intern''),
     (''locations'', JList [JStr ''NYC''])]"

definition listing_e :: listing where
  "listing_e = [(''company_name'', JStr ''Acme''), (''title'', JStr ''Data Intern''),
     (''locations'', JList [JStr ''NYC''])]"

text \<open>Environments and a fresh state for the worked examples.\<close>

definition ok_response :: "json \<Rightarrow> response" where
  "ok_response v = \<lparr>status_code = 200, json_body = Inr v, text_body = ''ok''\<rparr>"

definition error_response :: response where
  "error_response = \<lparr>status_code = 500, json_body = Inl (RequestException ''JSONDecodeError''),
     text_body = ''Internal Server Error''\<rparr>"

definition sample_env :: env where
  "sample_env =
     \<lparr>container_repr = sample_crepr,
      http_get = (\<lambda>t url. Inr (ok_response (JList [JDict listing_a]))),
      smtp_send = (\<lambda>t subject body. None),
      notion_post = (\<lambda>t page. Inr (ok_response JNull)),
      fromtimestamp = (\<lambda>v. case v of JInt i \<Rightarrow> Inr i | _ \<Rightarrow> Inl TypeError),
      strftime_date = (\<lambda>dt. ''Jan 01, 1970''),
      isoformat = (\<lambda>dt. ''1970-01-01T00:00:00''),
      sleep_interrupted = (\<lambda>t. False)\<rparr>"

definition fresh_state :: state where
  "fresh_state = \<lparr>conn = startup None, clock = 0, trace = []\<rparr>"

definition listing_no_title :: listing where
  "listing_no_title = [(''company_name'', JStr ''Acme''), (''title'', JStr []),
     (''locations'', JList [JStr ''NYC''])]"

definition smtp_down_env :: env where
  "smtp_down_env = sample_env\<lparr>smtp_send := (\<lambda>t subject body. Some (SMTPException ''535''))\<rparr>"

definition uid_a :: string where
  "uid_a = ''Acme::SWE Intern::NYC''"

definition subject_a :: string where
  "subject_a = email_subject sample_env listing_a"

definition body_a :: string where
  "body_a = email_body sample_env listing_a (JStr ''N/A'') ''NYC; SF'' ''N/A'' (JStr ''N/A'')"

definition notion_down_env :: env where
  "notion_down_env =
     sample_env\<lparr>notion_post := (\<lambda>t page. Inl (RequestException ''ConnectionError''))\<rparr>"

definition notion_500_env :: env where
  "notion_500_env = sample_env\<lparr>notion_post := (\<lambda>t page. Inr error_response)\<rparr>"

definition page_a :: notion_page where
  "page_a = \<lparr>page_company = JStr ''Acme'', page_title = JStr ''SWE Intern'',
     page_term = JStr ''N/A'', page_locations = ''NYC; SF'', page_date = None,
     page_sponsorship = JStr ''N/A''\<rparr>"

definition one_down_env :: env where
  "one_down_env =
     sample_env\<lparr>http_get := (\<lambda>t url. if t = 0 then Inr error_response
                                  else Inr (ok_response (JList [JDict listing_a, JDict listing_e])))\<rparr>"

definition multiple_choices_response :: response where
  "multiple_choices_response =
     \<lparr>status_code = 300, json_body = Inr (JList [JDict listing_e]),
      text_body = ''Multiple Choices''\<rparr>"

definition status_300_env :: env where
  "status_300_env =
     sample_env\<lparr>http_get := (\<lambda>t url. if t = 0 then Inr multiple_choices_response
                                  else Inr (ok_response (JList [JDict listing_a])))\<rparr>"

definition unreachable_env :: env where
  "unreachable_env = sample_env\<lparr>http_get := (\<lambda>t url. Inl (RequestException ''ConnectionError''))\<rparr>"

definition broken_feed_env :: env where
  "broken_feed_env = sample_env\<lparr>http_get := (\<lambda>t url. Inr (ok_response (JInt 7)))\<rparr>"

definition interrupted_env :: env where
  "interrupted_env = sample_env\<lparr>http_get := (\<lambda>t url. Inl KeyboardInterrupt)\<rparr>"

section \<open>Properties\<close>

subsection \<open>The fingerprint\<close>

text \<open>
  C1. Two listings that both pass validation and agree on \<open>company_name\<close>, \<open>title\<close> and
  the first location get the same fingerprint from \<open>get_unique_id\<close>, whatever their
  other fields (further locations included) are.
\<close>

theorem get_unique_id_same_triple:
  assumes "passes_validation l1" and "passes_validation l2"
    and "dict_get l1 ''company_name'' = dict_get l2 ''company_name''"
    and "dict_get l1 ''title'' = dict_get l2 ''title''"
    and "first_location (dict_get l1 ''locations'') = first_location (dict_get l2 ''locations'')"
  shows "get_unique_id crepr l1 = get_unique_id crepr l2 \<and> get_unique_id crepr l1 \<noteq> None"
  using assms by (simp add: get_unique_id_def passes_validation_def Let_def)

theorem get_unique_id_same_triple_witness:
  "passes_validation listing_a \<and> passes_validation listing_b \<and> listing_a \<noteq> listing_b
   \<and> get_unique_id sample_crepr listing_a = get_unique_id sample_crepr listing_b
   \<and> get_unique_id sample_crepr listing_a \<noteq> None"
proof -
  have va: "passes_validation listing_a" and vb: "passes_validation listing_b"
    by (simp_all add: listing_a_def listing_b_def passes_validation_def dict_get_def)
  have c: "dict_get listing_a ''company_name'' = dict_get listing_b ''company_name''"
    and t: "dict_get listing_a ''title'' = dict_get listing_b ''title''"
    and p: "first_location (dict_get listing_a ''locations'')
            = first_location (dict_get listing_b ''locations'')"
    by (simp_all add: listing_a_def listing_b_def dict_get_def)
  have ne: "listing_a \<noteq> listing_b"
    by (simp add: listing_a_def listing_b_def)
  from get_unique_id_same_triple [OF va vb c t p, of sample_crepr]
  have "get_unique_id sample_crepr listing_a = get_unique_id sample_crepr listing_b"
    and "get_unique_id sample_crepr listing_a \<noteq> None"
    by blast+
  with va vb ne show ?thesis by blast
qed

text \<open>
  C2, as stated, fails: the delimiter may occur inside a field. The company
  \<open>Acme::Labs\<close> with the title \<open>Intern\<close> and the company \<open>Acme\<close> with the title
  \<open>Labs::Intern\<close> get the same fingerprint.
\<close>

theorem get_unique_id_collision:
  "passes_validation listing_c \<and> passes_validation listing_d
   \<and> dict_get listing_c ''company_name'' \<noteq> dict_get listing_d ''company_name''
   \<and> dict_get listing_c ''title'' \<noteq> dict_get listing_d ''title''
   \<and> get_unique_id sample_crepr listing_c = Some ''Acme::Labs::Intern::NYC''
   \<and> get_unique_id sample_crepr listing_d = Some ''Acme::Labs::Intern::NYC''"
  by (simp add: listing_c_def listing_d_def passes_validation_def get_unique_id_def dict_get_def)

lemma split_at_delimiter:
  assumes "x \<notin> set a" and "x \<notin> set b" and "a @ x # r = b @ x # s"
  shows "a = b \<and> r = s"
  using assms
proof (induction a arbitrary: b)
  case Nil
  then show ?case by (cases b) auto
next
  case (Cons y a)
  then show ?case by (cases b) auto
qed

lemma fingerprint_of_strings:
  assumes "passes_validation l"
    and "dict_get l ''company_name'' = JStr c"
    and "dict_get l ''title'' = JStr t"
    and "first_location (dict_get l ''locations'') = JStr p"
  shows "get_unique_id crepr l = Some (c @ CHR '':'' # CHR '':'' # t @ CHR '':'' # CHR '':'' # p)"
  using assms by (simp add: get_unique_id_def passes_validation_def)

text \<open>
  C2, amended. For two listings that pass validation, whose \<open>company_name\<close>, \<open>title\<close> and
  first location are strings and whose \<open>company_name\<close> and \<open>title\<close> contain no colon,
  different triples give different fingerprints.
\<close>

theorem get_unique_id_distinct_without_colon:
  assumes "passes_validation l1" and "passes_validation l2"
    and "dict_get l1 ''company_name'' = JStr c1" and "dict_get l2 ''company_name'' = JStr c2"
    and "dict_get l1 ''title'' = JStr t1" and "dict_get l2 ''title'' = JStr t2"
    and "first_location (dict_get l1 ''locations'') = JStr p1"
    and "first_location (dict_get l2 ''locations'') = JStr p2"
    and "CHR '':'' \<notin> set c1" and "CHR '':'' \<notin> set c2"
    and "CHR '':'' \<notin> set t1" and "CHR '':'' \<notin> set t2"
    and "(c1, t1, p1) \<noteq> (c2, t2, p2)"
  shows "get_unique_id crepr l1 \<noteq> get_unique_id crepr l2"
proof
  assume eq: "get_unique_id crepr l1 = get_unique_id crepr l2"
  have f1: "get_unique_id crepr l1
      = Some (c1 @ CHR '':'' # CHR '':'' # t1 @ CHR '':'' # CHR '':'' # p1)"
    using assms(1,3,5,7) by (rule fingerprint_of_strings)
  have f2: "get_unique_id crepr l2
      = Some (c2 @ CHR '':'' # CHR '':'' # t2 @ CHR '':'' # CHR '':'' # p2)"
    using assms(2,4,6,8) by (rule fingerprint_of_strings)
  from eq f1 f2 have e: "c1 @ CHR '':'' # (CHR '':'' # t1 @ CHR '':'' # CHR '':'' # p1)
      = c2 @ CHR '':'' # (CHR '':'' # t2 @ CHR '':'' # CHR '':'' # p2)"
    by simp
  from split_at_delimiter [OF assms(9,10) e] have c: "c1 = c2"
    and r: "t1 @ CHR '':'' # (CHR '':'' # p1) = t2 @ CHR '':'' # (CHR '':'' # p2)"
    by simp_all
  from split_at_delimiter [OF assms(11,12) r] have "t1 = t2" and "p1 = p2"
    by simp_all
  with c assms(13) show False by simp
qed

theorem get_unique_id_distinct_without_colon_witness:
  "passes_validation listing_a \<and> passes_validation listing_e
   \<and> dict_get listing_a ''title'' = JStr ''SWE Intern''
   \<and> dict_get listing_e ''title'' = JStr ''Data Intern''
   \<and> get_unique_id sample_crepr listing_a \<noteq> get_unique_id sample_crepr listing_e"
proof -
  have va: "passes_validation listing_a" and ve: "passes_validation listing_e"
    by (simp_all add: listing_a_def listing_e_def passes_validation_def dict_get_def)
  have ca: "dict_get listing_a ''company_name'' = JStr ''Acme''"
    and ce: "dict_get listing_e ''company_name'' = JStr ''Acme''"
    and ta: "dict_get listing_a ''title'' = JStr ''SWE Intern''"
    and te: "dict_get listing_e ''title'' = JStr ''Data Intern''"
    and pa: "first_location (dict_get listing_a ''locations'') = JStr ''NYC''"
    and pe: "first_location (dict_get listing_e ''locations'') = JStr ''NYC''"
    by (simp_all add: listing_a_def listing_e_def dict_get_def)
  have "get_unique_id sample_crepr listing_a \<noteq> get_unique_id sample_crepr listing_e"
    by (rule get_unique_id_distinct_without_colon [OF va ve ca ce ta te pa pe]) simp_all
  with va ve ta te show ?thesis by simp
qed

subsection \<open>Invalid listings\<close>

lemma get_unique_id_nonempty: "get_unique_id crepr d = Some uid \<Longrightarrow> uid \<noteq> []"
  by (auto simp: get_unique_id_def Let_def split: if_splits)

text \<open>
  C7. When \<open>company_name\<close>, \<open>title\<close> or \<open>locations\<close> is missing or falsy, \<open>get_unique_id\<close>
  returns \<open>None\<close> and the loop body only prints the skip line: the clock (no call to a
  collaborator), the table and the rest of the trace are as before.
\<close>

theorem invalid_listing_discarded:
  assumes "\<not> truthy (dict_get d ''company_name'') \<or> \<not> truthy (dict_get d ''title'')
           \<or> \<not> truthy (dict_get d ''locations'')"
  shows "get_unique_id (container_repr env) d = None
         \<and> process_listing env (JDict d) st
             = (None, st\<lparr>trace := trace st @ [LogSkipping (JDict d)]\<rparr>)"
proof -
  from assms have "get_unique_id (container_repr env) d = None"
    by (auto simp: get_unique_id_def)
  then show ?thesis
    by (simp add: process_listing_def emit_def)
qed

theorem invalid_listing_discarded_witness:
  "\<not> truthy (dict_get listing_no_title ''title'')
   \<and> get_unique_id (container_repr sample_env) listing_no_title = None
   \<and> process_listing sample_env (JDict listing_no_title) fresh_state
       = (None, fresh_state\<lparr>trace := [LogSkipping (JDict listing_no_title)]\<rparr>)"
proof -
  have h: "\<not> truthy (dict_get listing_no_title ''title'')"
    by (simp add: listing_no_title_def dict_get_def)
  then have "\<not> truthy (dict_get listing_no_title ''company_name'')
      \<or> \<not> truthy (dict_get listing_no_title ''title'')
      \<or> \<not> truthy (dict_get listing_no_title ''locations'')"
    by simp
  from invalid_listing_discarded [OF this, of sample_env fresh_state] h show ?thesis
    by (simp add: fresh_state_def)
qed

subsection \<open>The table \<open>seen\<close>\<close>

text \<open>
  C5, as stated, fails: the insert of line 276 on a fingerprint that is already in the
  table raises \<open>IntegrityError\<close>; it is not a silent no-op.
\<close>

theorem insert_present_raises:
  "sql_select ''Acme::SWE Intern::NYC'' (startup (Some [''Acme::SWE Intern::NYC'']))
   \<and> mark_seen ''Acme::SWE Intern::NYC'' (startup (Some [''Acme::SWE Intern::NYC'']))
       = Inl IntegrityError"
  by (simp add: mark_seen_def sql_insert_def sql_select_def visible_rows_def startup_def)

text \<open>
  C5, amended. Inserting a fingerprint that is not in the table succeeds and leaves
  exactly one row for it; inserting it again raises \<open>IntegrityError\<close> and, raising, leaves
  the table as it is. An insert of a fingerprint that is present always raises.
\<close>

theorem mark_seen_twice:
  "(uid \<notin> set (visible_rows c) \<longrightarrow>
      (\<exists>c1. mark_seen uid c = Inr c1 \<and> count_list (visible_rows c1) uid = 1
            \<and> mark_seen uid c1 = Inl IntegrityError))
   \<and> (uid \<in> set (visible_rows c) \<longrightarrow> mark_seen uid c = Inl IntegrityError)"
  by (auto simp: mark_seen_def sql_insert_def sql_commit_def visible_rows_def count_list_0_iff)

theorem mark_seen_twice_witness:
  "uid_a \<notin> set (visible_rows (startup None))
   \<and> (\<exists>c1. mark_seen uid_a (startup None) = Inr c1 \<and> count_list (visible_rows c1) uid_a = 1
            \<and> mark_seen uid_a c1 = Inl IntegrityError)
   \<and> uid_a \<in> set (visible_rows (startup (Some [uid_a])))
   \<and> mark_seen uid_a (startup (Some [uid_a])) = Inl IntegrityError"
proof -
  have h: "uid_a \<notin> set (visible_rows (startup None))"
    and g: "uid_a \<in> set (visible_rows (startup (Some [uid_a])))"
    by (simp_all add: visible_rows_def startup_def)
  with mark_seen_twice [of uid_a "startup None"] mark_seen_twice [of uid_a "startup (Some [uid_a])"]
  show ?thesis by blast
qed

text \<open>
  C6. After a successful insert and commit the lookup finds the fingerprint, every
  visible row is on disk, and the lookup still finds it after a restart. A refused
  insert means the fingerprint was there already. Start-up gives the empty table when
  there was none and otherwise exactly the rows that were committed.
\<close>

theorem insert_then_contains_across_restart:
  "(mark_seen uid c = Inr c1 \<longrightarrow>
       sql_select uid c1 \<and> on_disk c1 = Some (visible_rows c1)
       \<and> sql_select uid (startup (on_disk c1)))
   \<and> (mark_seen uid c = Inl e \<longrightarrow> sql_select uid c)
   \<and> visible_rows (startup None) = []
   \<and> visible_rows (startup (Some rows)) = rows
   \<and> visible_rows (startup (on_disk c)) = committed c"
  by (auto simp: mark_seen_def sql_insert_def sql_commit_def sql_select_def visible_rows_def
      startup_def on_disk_def split: if_splits)

theorem insert_then_contains_across_restart_witness:
  "mark_seen uid_a (startup None) = Inr \<lparr>committed = [uid_a], pending = []\<rparr>
   \<and> sql_select uid_a \<lparr>committed = [uid_a], pending = []\<rparr>
   \<and> sql_select uid_a (startup (on_disk \<lparr>committed = [uid_a], pending = []\<rparr>))
   \<and> mark_seen uid_a (startup (Some [uid_a])) = Inl IntegrityError
   \<and> sql_select uid_a (startup (Some [uid_a]))"
proof -
  have h: "mark_seen uid_a (startup None) = Inr \<lparr>committed = [uid_a], pending = []\<rparr>"
    and g: "mark_seen uid_a (startup (Some [uid_a])) = Inl IntegrityError"
    by (simp_all add: mark_seen_def sql_insert_def sql_commit_def visible_rows_def startup_def)
  with insert_then_contains_across_restart
         [of uid_a "startup None" "\<lparr>committed = [uid_a], pending = []\<rparr>"]
       insert_then_contains_across_restart
         [of uid_a "startup (Some [uid_a])" _ IntegrityError]
  show ?thesis by blast
qed

subsection \<open>One listing\<close>

lemma process_listing_new:
  assumes "get_unique_id (container_repr env) d = Some uid" and "\<not> sql_select uid (conn st)"
  shows "process_listing env (JDict d) st = process_new env d uid (emit [SqlSelect uid False] st)"
  using assms get_unique_id_nonempty [OF assms(1)] by (simp add: process_listing_def)

lemma process_listing_seen:
  assumes "get_unique_id (container_repr env) d = Some uid" and "sql_select uid (conn st)"
  shows "process_listing env (JDict d) st
         = (None, emit [SqlSelect uid True, LogAlreadySeen uid] st)"
  using assms get_unique_id_nonempty [OF assms(1)] by (simp add: process_listing_def emit_def)

lemma process_new_formatted:
  assumes "format_notification env d = Inr (subject, body)"
  shows "process_new env d uid st
         = except_Exception uid (try_block env d uid subject body (emit [LogNewListing uid] st))"
  using assms by (simp add: process_new_def)

lemma try_block_email_raises:
  assumes "smtp_send env (clock st) subject body = Some e"
  shows "try_block env d uid subject body st
         = (Some e, tick (emit [CallSendEmail subject body] st))"
  using assms by (simp add: try_block_def send_email_def)

lemma add_to_notion_effect:
  assumes "add_to_notion env l st = (r, st')"
  shows "conn st' = conn st \<and> (\<exists>evs. trace st' = trace st @ evs \<and> filter is_sql evs = [])"
  using assms
  by (auto simp: add_to_notion_def emit_def tick_def Let_def split: sum.splits if_splits)

lemma mark_seen_new:
  assumes "\<not> sql_select uid c"
  shows "mark_seen uid c = Inr \<lparr>committed = committed c @ pending c @ [uid], pending = []\<rparr>"
  using assms by (simp add: mark_seen_def sql_insert_def sql_select_def sql_commit_def)

text \<open>
  Whatever happens inside the \<open>try\<close>, the e-mail call comes first; afterwards either no
  SQL statement ran and the table is untouched, or the insert succeeded and was
  committed.
\<close>

lemma try_block_effect:
  assumes "try_block env l uid subject body st = (r, st')" and "\<not> sql_select uid (conn st)"
  shows "\<exists>evs. trace st' = trace st @ CallSendEmail subject body # evs
           \<and> (filter is_sql evs = [] \<and> conn st' = conn st
              \<or> filter is_sql evs = [SqlInsert uid True, SqlCommit]
                \<and> mark_seen uid (conn st) = Inr (conn st') \<and> r = None)"
proof (cases "smtp_send env (clock st) subject body")
  case (Some e)
  with assms(1) show ?thesis
    by (auto simp: try_block_def send_email_def emit_def tick_def)
next
  case None
  let ?st2 = "emit [LogEmailSent (dict_get l ''company_name'') (dict_get l ''title'')]
                (tick (emit [CallSendEmail subject body] st))"
  obtain r3 st3 where a: "add_to_notion env l ?st2 = (r3, st3)"
    by (cases "add_to_notion env l ?st2")
  from add_to_notion_effect [OF a] obtain evs3 where c3: "conn st3 = conn st"
    and t3: "trace st3 = trace ?st2 @ evs3" and f3: "filter is_sql evs3 = []"
    by (auto simp: emit_def tick_def)
  show ?thesis
  proof (cases r3)
    case (Some e)
    with assms(1) None a have "st' = st3"
      by (simp add: try_block_def send_email_def)
    with c3 t3 f3 show ?thesis
      by (simp add: emit_def tick_def)
  next
    case n3: None
    from assms(2) c3 have m: "mark_seen uid (conn st3)
        = Inr \<lparr>committed = committed (conn st) @ pending (conn st) @ [uid], pending = []\<rparr>"
      by (simp add: mark_seen_new)
    with assms(1) None a n3 have "r = None"
      and "st' = emit [SqlInsert uid True, SqlCommit]
         (st3\<lparr>conn := \<lparr>committed = committed (conn st) @ pending (conn st) @ [uid],
                         pending = []\<rparr>\<rparr>)"
      by (simp_all add: try_block_def send_email_def)
    with t3 f3 m c3 show ?thesis
      by (simp add: emit_def tick_def)
  qed
qed

lemma except_Exception_effect:
  assumes "except_Exception uid (r, st) = (r', st')"
  shows "conn st' = conn st \<and> clock st' = clock st
         \<and> (\<exists>evs. trace st' = trace st @ evs \<and> filter is_sql evs = [])
         \<and> (r = None \<longrightarrow> r' = None)"
  using assms by (auto simp: except_Exception_def emit_def split: option.splits if_splits)

text \<open>
  C3. For a listing whose fingerprint is not in the table and whose notification text
  was built, an \<open>Exception\<close> raised by \<open>send_email\<close> is caught by the \<open>except\<close> of line 279
  and logged; the loop body ends normally, nothing else is called and the table is
  unchanged, so the fingerprint is still absent. Whenever the same listing is processed
  again while its fingerprint is absent, \<open>send_email\<close> is called again with the same
  subject and body.
\<close>

theorem email_failure_not_marked_seen:
  assumes uid: "get_unique_id (container_repr env) d = Some uid"
    and new: "\<not> sql_select uid (conn st)"
    and fmt: "format_notification env d = Inr (subject, body)"
    and fail: "smtp_send env (clock st) subject body = Some e"
    and exc: "is_Exception e"
  shows "process_listing env (JDict d) st
         = (None, st\<lparr>clock := Suc (clock st),
                      trace := trace st @ [SqlSelect uid False, LogNewListing uid,
                                 CallSendEmail subject body, LogErrorProcessing uid e]\<rparr>)
         \<and> \<not> sql_select uid (conn (snd (process_listing env (JDict d) st)))
         \<and> (\<forall>st2. \<not> sql_select uid (conn st2) \<longrightarrow>
               (\<exists>evs. trace (snd (process_listing env (JDict d) st2))
                  = trace st2 @ [SqlSelect uid False, LogNewListing uid,
                                 CallSendEmail subject body] @ evs))"
proof -
  have first: "process_listing env (JDict d) st
         = (None, st\<lparr>clock := Suc (clock st),
                      trace := trace st @ [SqlSelect uid False, LogNewListing uid,
                                 CallSendEmail subject body, LogErrorProcessing uid e]\<rparr>)"
    using fail exc
    by (simp add: process_listing_new [OF uid new] process_new_formatted [OF fmt]
        try_block_email_raises except_Exception_def emit_def tick_def)
  have again: "\<exists>evs. trace (snd (process_listing env (JDict d) st2))
                  = trace st2 @ [SqlSelect uid False, LogNewListing uid,
                                 CallSendEmail subject body] @ evs"
    if n2: "\<not> sql_select uid (conn st2)" for st2
  proof -
    let ?st = "emit [LogNewListing uid] (emit [SqlSelect uid False] st2)"
    have p: "process_listing env (JDict d) st2
        = except_Exception uid (try_block env d uid subject body ?st)"
      by (simp add: process_listing_new [OF uid n2] process_new_formatted [OF fmt])
    obtain r1 st1 where t: "try_block env d uid subject body ?st = (r1, st1)"
      by (cases "try_block env d uid subject body ?st")
    obtain r2 st2' where x: "except_Exception uid (r1, st1) = (r2, st2')"
      by (cases "except_Exception uid (r1, st1)")
    from n2 have "\<not> sql_select uid (conn ?st)"
      by (simp add: emit_def)
    from try_block_effect [OF t this] obtain evs1
      where e1: "trace st1 = trace ?st @ CallSendEmail subject body # evs1"
      by blast
    from except_Exception_effect [OF x] obtain evs2 where "trace st2' = trace st1 @ evs2"
      by blast
    with e1 p t x show ?thesis
      by (simp add: emit_def)
  qed
  from first new again show ?thesis by simp
qed

lemma sample_fingerprint: "get_unique_id sample_crepr listing_a = Some uid_a"
  by (simp add: get_unique_id_def listing_a_def dict_get_def uid_a_def)

lemma fresh_state_unseen: "\<not> sql_select uid (conn fresh_state)"
  by (simp add: fresh_state_def sql_select_def visible_rows_def startup_def)

lemma sample_notification:
  "format_notification (sample_env\<lparr>smtp_send := f, notion_post := g\<rparr>) listing_a
   = Inr (subject_a, body_a)"
  by (simp add: format_notification_def location_str_def date_posted_str_def term_str_def
      py_join_def dict_get_def dict_get_default_def listing_a_def subject_a_def body_a_def
      email_subject_def email_body_def sample_env_def)

theorem email_failure_not_marked_seen_witness:
  "get_unique_id (container_repr smtp_down_env) listing_a = Some uid_a
   \<and> \<not> sql_select uid_a (conn fresh_state)
   \<and> is_Exception (SMTPException ''535'')
   \<and> process_listing smtp_down_env (JDict listing_a) fresh_state
       = (None, fresh_state\<lparr>clock := 1,
                   trace := [SqlSelect uid_a False, LogNewListing uid_a,
                             CallSendEmail subject_a body_a,
                             LogErrorProcessing uid_a (SMTPException ''535'')]\<rparr>)
   \<and> (\<exists>evs. trace (snd (process_listing smtp_down_env (JDict listing_a)
                          (fresh_state\<lparr>clock := 7\<rparr>)))
          = [SqlSelect uid_a False, LogNewListing uid_a, CallSendEmail subject_a body_a] @ evs)"
proof -
  have u: "get_unique_id (container_repr smtp_down_env) listing_a = Some uid_a"
    by (simp add: smtp_down_env_def sample_env_def sample_fingerprint)
  have f: "format_notification smtp_down_env listing_a = Inr (subject_a, body_a)"
    using sample_notification [where f = "\<lambda>t subject body. Some (SMTPException ''535'')"
                                 and g = "notion_post sample_env"]
    by (simp add: smtp_down_env_def)
  have s: "smtp_send smtp_down_env (clock fresh_state) subject_a body_a
           = Some (SMTPException ''535'')"
    by (simp add: smtp_down_env_def)
  have x: "is_Exception (SMTPException ''535'')"
    by simp
  note inst = email_failure_not_marked_seen [OF u fresh_state_unseen f s x]
  have later: "\<not> sql_select uid_a (conn (fresh_state\<lparr>clock := 7\<rparr>))"
    using fresh_state_unseen [of uid_a] by simp
  from inst have "process_listing smtp_down_env (JDict listing_a) fresh_state
       = (None, fresh_state\<lparr>clock := 1,
                   trace := [SqlSelect uid_a False, LogNewListing uid_a,
                             CallSendEmail subject_a body_a,
                             LogErrorProcessing uid_a (SMTPException ''535'')]\<rparr>)"
    by (simp add: fresh_state_def)
  moreover from inst later
  have "\<exists>evs. trace (snd (process_listing smtp_down_env (JDict listing_a)
                          (fresh_state\<lparr>clock := 7\<rparr>)))
          = trace (fresh_state\<lparr>clock := 7\<rparr>)
            @ [SqlSelect uid_a False, LogNewListing uid_a, CallSendEmail subject_a body_a] @ evs"
    by blast
  then have "\<exists>evs. trace (snd (process_listing smtp_down_env (JDict listing_a)
                          (fresh_state\<lparr>clock := 7\<rparr>)))
          = [SqlSelect uid_a False, LogNewListing uid_a, CallSendEmail subject_a body_a] @ evs"
    by (simp add: fresh_state_def)
  ultimately show ?thesis
    using u x fresh_state_unseen by blast
qed

lemma sample_page:
  "notion_data (sample_env\<lparr>smtp_send := f, notion_post := g\<rparr>) listing_a = Inr page_a"
  by (simp add: notion_data_def location_str_def date_posted_iso_def term_str_def
      py_join_def dict_get_def dict_get_default_def listing_a_def page_a_def sample_env_def)

text \<open>
  C4, as stated, fails for an archival-dispatch error: \<open>add_to_notion\<close> catches nothing, so
  an exception of \<open>requests.post\<close> leaves it and reaches the \<open>except\<close> of line 279, which
  skips the insert. Here the e-mail went out and the fingerprint is not recorded.
\<close>

theorem archival_exception_not_marked_seen:
  "process_listing notion_down_env (JDict listing_a) fresh_state
   = (None, fresh_state\<lparr>clock := 2,
               trace := [SqlSelect uid_a False, LogNewListing uid_a,
                         CallSendEmail subject_a body_a,
                         LogEmailSent (JStr ''Acme'') (JStr ''SWE Intern''),
                         CallNotionPost page_a,
                         LogErrorProcessing uid_a (RequestException ''ConnectionError'')]\<rparr>)
   \<and> \<not> sql_select uid_a
         (conn (snd (process_listing notion_down_env (JDict listing_a) fresh_state)))"
proof -
  have u: "get_unique_id (container_repr notion_down_env) listing_a = Some uid_a"
    by (simp add: notion_down_env_def sample_env_def sample_fingerprint)
  have f: "format_notification notion_down_env listing_a = Inr (subject_a, body_a)"
    using sample_notification [where f = "smtp_send sample_env"
        and g = "\<lambda>t page. Inl (RequestException ''ConnectionError'')"]
    by (simp add: notion_down_env_def)
  have p: "notion_data notion_down_env listing_a = Inr page_a"
    using sample_page [where f = "smtp_send sample_env"
        and g = "\<lambda>t page. Inl (RequestException ''ConnectionError'')"]
    by (simp add: notion_down_env_def)
  have c: "dict_get listing_a ''company_name'' = JStr ''Acme''"
    and t: "dict_get listing_a ''title'' = JStr ''SWE Intern''"
    by (simp_all add: listing_a_def dict_get_def)
  have s: "smtp_send notion_down_env n subject_a body_a = None"
    and n: "notion_post notion_down_env m page_a = Inl (RequestException ''ConnectionError'')"
    for n m
    by (simp_all add: notion_down_env_def sample_env_def)
  have r: "process_listing notion_down_env (JDict listing_a) fresh_state
   = (None, fresh_state\<lparr>clock := 2,
               trace := [SqlSelect uid_a False, LogNewListing uid_a,
                         CallSendEmail subject_a body_a,
                         LogEmailSent (JStr ''Acme'') (JStr ''SWE Intern''),
                         CallNotionPost page_a,
                         LogErrorProcessing uid_a (RequestException ''ConnectionError'')]\<rparr>)"
    by (simp add: process_listing_new [OF u fresh_state_unseen] process_new_formatted [OF f]
        try_block_def send_email_def add_to_notion_def p c t s n except_Exception_def
        emit_def tick_def)
      (simp add: fresh_state_def)
  then show ?thesis
    by (simp add: fresh_state_unseen)
qed

text \<open>
  C4, amended. For a new listing whose e-mail went out: a response of \<open>requests.post\<close>
  with a status other than 200 and 201 is logged, nothing is raised and the fingerprint
  is inserted and committed; an \<open>Exception\<close> raised by \<open>requests.post\<close> is logged by the
  \<open>except\<close> of line 279 and the table is left unchanged.
\<close>

theorem archival_failure_outcomes:
  assumes uid: "get_unique_id (container_repr env) d = Some uid"
    and new: "\<not> sql_select uid (conn st)"
    and fmt: "format_notification env d = Inr (subject, body)"
    and sent: "smtp_send env (clock st) subject body = None"
    and data: "notion_data env d = Inr data"
  shows "(\<forall>resp. notion_post env (Suc (clock st)) data = Inr resp
            \<and> status_code resp \<noteq> 200 \<and> status_code resp \<noteq> 201 \<longrightarrow>
            process_listing env (JDict d) st
            = (None, \<lparr>conn = \<lparr>committed = committed (conn st) @ pending (conn st) @ [uid],
                               pending = []\<rparr>,
                       clock = Suc (Suc (clock st)),
                       trace = trace st @ [SqlSelect uid False, LogNewListing uid,
                                 CallSendEmail subject body,
                                 LogEmailSent (dict_get d ''company_name'') (dict_get d ''title''),
                                 CallNotionPost data,
                                 LogNotionFailed (status_code resp) (text_body resp),
                                 SqlInsert uid True, SqlCommit]\<rparr>))
         \<and> (\<forall>e. notion_post env (Suc (clock st)) data = Inl e \<and> is_Exception e \<longrightarrow>
            process_listing env (JDict d) st
            = (None, \<lparr>conn = conn st,
                       clock = Suc (Suc (clock st)),
                       trace = trace st @ [SqlSelect uid False, LogNewListing uid,
                                 CallSendEmail subject body,
                                 LogEmailSent (dict_get d ''company_name'') (dict_get d ''title''),
                                 CallNotionPost data,
                                 LogErrorProcessing uid e]\<rparr>))"
  using sent data new
  by (auto simp add: process_listing_new [OF uid new] process_new_formatted [OF fmt]
        try_block_def send_email_def add_to_notion_def except_Exception_def emit_def tick_def
        mark_seen_new Let_def)

theorem archival_failure_outcomes_witness:
  "get_unique_id (container_repr notion_500_env) listing_a = Some uid_a
   \<and> smtp_send notion_500_env (clock fresh_state) subject_a body_a = None
   \<and> notion_post notion_500_env (Suc (clock fresh_state)) page_a = Inr error_response
   \<and> conn (snd (process_listing notion_500_env (JDict listing_a) fresh_state))
       = \<lparr>committed = [uid_a], pending = []\<rparr>
   \<and> notion_post notion_down_env (Suc (clock fresh_state)) page_a
       = Inl (RequestException ''ConnectionError'')
   \<and> conn (snd (process_listing notion_down_env (JDict listing_a) fresh_state))
       = conn fresh_state"
proof -
  have u5: "get_unique_id (container_repr notion_500_env) listing_a = Some uid_a"
    and ud: "get_unique_id (container_repr notion_down_env) listing_a = Some uid_a"
    by (simp_all add: notion_500_env_def notion_down_env_def sample_env_def sample_fingerprint)
  have f5: "format_notification notion_500_env listing_a = Inr (subject_a, body_a)"
    using sample_notification [where f = "smtp_send sample_env"
        and g = "\<lambda>t page. Inr error_response"]
    by (simp add: notion_500_env_def)
  have fd: "format_notification notion_down_env listing_a = Inr (subject_a, body_a)"
    using sample_notification [where f = "smtp_send sample_env"
        and g = "\<lambda>t page. Inl (RequestException ''ConnectionError'')"]
    by (simp add: notion_down_env_def)
  have p5: "notion_data notion_500_env listing_a = Inr page_a"
    using sample_page [where f = "smtp_send sample_env" and g = "\<lambda>t page. Inr error_response"]
    by (simp add: notion_500_env_def)
  have pd: "notion_data notion_down_env listing_a = Inr page_a"
    using sample_page [where f = "smtp_send sample_env"
        and g = "\<lambda>t page. Inl (RequestException ''ConnectionError'')"]
    by (simp add: notion_down_env_def)
  have s5: "smtp_send notion_500_env (clock fresh_state) subject_a body_a = None"
    and sd: "smtp_send notion_down_env (clock fresh_state) subject_a body_a = None"
    by (simp_all add: notion_500_env_def notion_down_env_def sample_env_def)
  have n5: "notion_post notion_500_env (Suc (clock fresh_state)) page_a = Inr error_response"
    and nd: "notion_post notion_down_env (Suc (clock fresh_state)) page_a
             = Inl (RequestException ''ConnectionError'')"
    by (simp_all add: notion_500_env_def notion_down_env_def)
  have st: "status_code error_response \<noteq> 200 \<and> status_code error_response \<noteq> 201"
    by (simp add: error_response_def)
  have a: "conn (snd (process_listing notion_500_env (JDict listing_a) fresh_state))
       = \<lparr>committed = [uid_a], pending = []\<rparr>"
    using archival_failure_outcomes [OF u5 fresh_state_unseen f5 s5 p5] n5 st
    by (simp add: fresh_state_def startup_def)
  have b: "conn (snd (process_listing notion_down_env (JDict listing_a) fresh_state))
       = conn fresh_state"
    using archival_failure_outcomes [OF ud fresh_state_unseen fd sd pd] nd
    by simp
  from u5 s5 n5 nd a b show ?thesis by blast
qed

subsection \<open>Fetching\<close>

lemma fetch_one_failed:
  assumes "source_failed env (clock st) url"
  shows "fetch_one env url st = (Inl (failure env (clock st) url), tick (emit [CallGet url] st))
         \<and> is_RequestException (failure env (clock st) url)"
  using assms
  by (auto simp: source_failed_def failure_def fetch_one_def Let_def split: sum.splits)

lemma fetch_one_ok:
  assumes "source_listings env (clock st) url = Some xs"
  shows "fetch_one env url st = (Inr xs, tick (emit [CallGet url] st))
         \<and> \<not> source_failed env (clock st) url"
  using assms
  by (auto simp: source_listings_def source_failed_def fetch_one_def Let_def
      split: sum.splits if_splits json.splits)

lemma fetch_from_failed:
  assumes "source_failed env (clock st) url"
  shows "fetch_from env (url # urls) results st
         = fetch_from env urls results
             (emit [LogFetchError url (failure env (clock st) url)] (tick (emit [CallGet url] st)))"
  using fetch_one_failed [OF assms] by simp

lemma fetch_from_ok:
  assumes "source_listings env (clock st) url = Some xs"
  shows "fetch_from env (url # urls) results st
         = fetch_from env urls (results @ xs) (tick (emit [CallGet url] st))"
  using fetch_one_ok [OF assms] by simp

lemma fetch_from_settled:
  assumes "list_all (source_settled env) (enumerate (clock st) urls)"
  shows "fetch_from env urls results st
         = (Inr (results @ concat (map (contribution env) (enumerate (clock st) urls))),
            st\<lparr>clock := clock st + length urls,
               trace := trace st @ concat (map (fetch_events env) (enumerate (clock st) urls))\<rparr>)"
  using assms
proof (induction urls arbitrary: results st)
  case Nil
  then show ?case by simp
next
  case (Cons url urls)
  from Cons.prems have head: "source_settled env (clock st, url)"
    and rest: "list_all (source_settled env) (enumerate (Suc (clock st)) urls)"
    by simp_all
  show ?case
  proof (cases "source_failed env (clock st) url")
    case True
    let ?st = "emit [LogFetchError url (failure env (clock st) url)] (tick (emit [CallGet url] st))"
    have step: "fetch_from env (url # urls) results st = fetch_from env urls results ?st"
      by (rule fetch_from_failed [OF True])
    from True have none: "source_listings env (clock st) url = None"
      by (auto simp: source_failed_def source_listings_def split: sum.splits)
    from rest have "list_all (source_settled env) (enumerate (clock ?st) urls)"
      by (simp add: emit_def tick_def)
    from Cons.IH [OF this, of results] True none show ?thesis
      unfolding step by (simp add: contribution_def fetch_events_def emit_def tick_def)
  next
    case False
    with head obtain xs where some: "source_listings env (clock st) url = Some xs"
      by (auto simp: source_settled_def)
    let ?st = "tick (emit [CallGet url] st)"
    have step: "fetch_from env (url # urls) results st = fetch_from env urls (results @ xs) ?st"
      by (rule fetch_from_ok [OF some])
    from rest have "list_all (source_settled env) (enumerate (clock ?st) urls)"
      by (simp add: emit_def tick_def)
    from Cons.IH [OF this, of "results @ xs"] False some show ?thesis
      unfolding step by (simp add: contribution_def fetch_events_def emit_def tick_def)
  qed
qed

text \<open>
  C8, as stated, fails for a non-success status outside 400 to 599: \<open>raise_for_status\<close>
  lets it pass. Here the first source answers 300 with a JSON array; its listing is kept
  in the result and no error line is printed.
\<close>

theorem non_success_status_kept:
  "http_get status_300_env (clock fresh_state) (JSON_URLS ! 0) = Inr multiple_choices_response
   \<and> non_success_status (status_code multiple_choices_response)
   \<and> fetch_listings status_300_env fresh_state
       = (Inr [JDict listing_e, JDict listing_a],
          fresh_state\<lparr>clock := 2,
             trace := [CallGet (JSON_URLS ! 0), CallGet (JSON_URLS ! 1)]\<rparr>)"
proof -
  have h0: "http_get status_300_env 0 url = Inr multiple_choices_response"
    and h1: "http_get status_300_env (Suc 0) url = Inr (ok_response (JList [JDict listing_a]))"
    for url
    by (simp_all add: status_300_env_def)
  have c: "clock fresh_state = 0"
    by (simp add: fresh_state_def)
  have n: "non_success_status (status_code multiple_choices_response)"
    by (simp add: non_success_status_def multiple_choices_response_def)
  have f: "fetch_listings status_300_env fresh_state
       = (Inr [JDict listing_e, JDict listing_a],
          fresh_state\<lparr>clock := 2,
             trace := [CallGet (JSON_URLS ! 0), CallGet (JSON_URLS ! 1)]\<rparr>)"
    by (simp add: fetch_listings_def JSON_URLS_def fetch_one_def c h0 h1 bad_status_def
        multiple_choices_response_def ok_response_def emit_def tick_def)
      (simp add: fresh_state_def)
  from h0 c n f show ?thesis by simp
qed

text \<open>
  C8, amended. The \<open>i\<close>-th URL is requested at time \<open>clock st + i\<close>. When every source
  either fails (a \<open>RequestException\<close> of \<open>requests.get\<close>, or a status from 400 to 599) or
  answers with a JSON array, \<open>fetch_listings\<close> returns normally the concatenation, in the
  order of \<open>JSON_URLS\<close>, of the arrays of the sources that answered, each array in its own
  order, and the trace gets one request per URL and one error line per failed source.
  Besides, whatever the other sources do, a failed source is logged and the loop goes on
  with the next URL and the results collected so far.
\<close>

theorem fetch_listings_concatenates:
  "(list_all (source_settled env) (enumerate (clock st) JSON_URLS) \<longrightarrow>
      fetch_listings env st
      = (Inr (concat (map (contribution env) (enumerate (clock st) JSON_URLS))),
         st\<lparr>clock := clock st + length JSON_URLS,
            trace := trace st @ concat (map (fetch_events env) (enumerate (clock st) JSON_URLS))\<rparr>))
   \<and> (source_failed env (clock st) url \<longrightarrow>
      is_RequestException (failure env (clock st) url)
      \<and> fetch_from env (url # urls) results st
        = fetch_from env urls results
            (emit [CallGet url, LogFetchError url (failure env (clock st) url)] (tick st)))"
proof (intro conjI impI)
  assume "list_all (source_settled env) (enumerate (clock st) JSON_URLS)"
  from fetch_from_settled [OF this, of "[]"] show "fetch_listings env st
      = (Inr (concat (map (contribution env) (enumerate (clock st) JSON_URLS))),
         st\<lparr>clock := clock st + length JSON_URLS,
            trace := trace st @ concat (map (fetch_events env) (enumerate (clock st) JSON_URLS))\<rparr>)"
    by (simp add: fetch_listings_def)
next
  assume f: "source_failed env (clock st) url"
  from fetch_one_failed [OF f] show "is_RequestException (failure env (clock st) url)"
    by simp
  have "emit [LogFetchError url (failure env (clock st) url)] (tick (emit [CallGet url] st))
        = emit [CallGet url, LogFetchError url (failure env (clock st) url)] (tick st)"
    by (simp add: emit_def tick_def)
  with fetch_from_failed [OF f, of urls results]
  show "fetch_from env (url # urls) results st
        = fetch_from env urls results
            (emit [CallGet url, LogFetchError url (failure env (clock st) url)] (tick st))"
    by simp
qed


theorem fetch_listings_concatenates_witness:
  "list_all (source_settled one_down_env) (enumerate (clock fresh_state) JSON_URLS)
   \<and> source_failed one_down_env (clock fresh_state) (JSON_URLS ! 0)
   \<and> fetch_listings one_down_env fresh_state
       = (Inr [JDict listing_a, JDict listing_e],
          fresh_state\<lparr>clock := 2,
             trace := [CallGet (JSON_URLS ! 0), LogFetchError (JSON_URLS ! 0) (HTTPError 500),
                       CallGet (JSON_URLS ! 1)]\<rparr>)
   \<and> source_failed unreachable_env (clock fresh_state) (JSON_URLS ! 0)
   \<and> fetch_from unreachable_env [JSON_URLS ! 0, JSON_URLS ! 1] [] fresh_state
       = fetch_from unreachable_env [JSON_URLS ! 1] []
           (emit [CallGet (JSON_URLS ! 0),
                  LogFetchError (JSON_URLS ! 0) (RequestException ''ConnectionError'')]
              (tick fresh_state))"
proof -
  have h0: "http_get one_down_env 0 url = Inr error_response"
    and h1: "http_get one_down_env (Suc 0) url
             = Inr (ok_response (JList [JDict listing_a, JDict listing_e]))"
    and hu: "http_get unreachable_env t url = Inl (RequestException ''ConnectionError'')"
    for url t
    by (simp_all add: one_down_env_def unreachable_env_def)
  have c: "clock fresh_state = 0" and tr: "trace fresh_state = []"
    by (simp_all add: fresh_state_def)
  have s: "list_all (source_settled one_down_env) (enumerate (clock fresh_state) JSON_URLS)"
    by (simp add: c JSON_URLS_def source_settled_def source_failed_def source_listings_def h0 h1
        ok_response_def error_response_def bad_status_def)
  have f: "source_failed one_down_env (clock fresh_state) (JSON_URLS ! 0)"
    by (simp add: c source_failed_def h0 error_response_def bad_status_def)
  have r: "concat (map (contribution one_down_env) (enumerate (clock fresh_state) JSON_URLS))
           = [JDict listing_a, JDict listing_e]"
    by (simp add: c JSON_URLS_def contribution_def source_listings_def h0 h1 ok_response_def
        error_response_def bad_status_def)
  have v: "concat (map (fetch_events one_down_env) (enumerate (clock fresh_state) JSON_URLS))
           = [CallGet (JSON_URLS ! 0), LogFetchError (JSON_URLS ! 0) (HTTPError 500),
              CallGet (JSON_URLS ! 1)]"
    by (simp add: c JSON_URLS_def fetch_events_def source_failed_def failure_def h0 h1
        ok_response_def error_response_def bad_status_def)
  have fu: "source_failed unreachable_env (clock fresh_state) (JSON_URLS ! 0)"
    and eu: "failure unreachable_env (clock fresh_state) (JSON_URLS ! 0)
             = RequestException ''ConnectionError''"
    by (simp_all add: source_failed_def failure_def hu)
  from fetch_listings_concatenates [of one_down_env fresh_state] s r v
  have "fetch_listings one_down_env fresh_state
       = (Inr [JDict listing_a, JDict listing_e],
          fresh_state\<lparr>clock := 2,
             trace := [CallGet (JSON_URLS ! 0), LogFetchError (JSON_URLS ! 0) (HTTPError 500),
                       CallGet (JSON_URLS ! 1)]\<rparr>)"
    by (simp add: c tr JSON_URLS_def)
  moreover
  from fetch_listings_concatenates [of unreachable_env fresh_state "JSON_URLS ! 0"
      "[JSON_URLS ! 1]" "[]"] fu eu
  have "fetch_from unreachable_env [JSON_URLS ! 0, JSON_URLS ! 1] [] fresh_state
       = fetch_from unreachable_env [JSON_URLS ! 1] []
           (emit [CallGet (JSON_URLS ! 0),
                  LogFetchError (JSON_URLS ! 0) (RequestException ''ConnectionError'')]
              (tick fresh_state))"
    by simp
  ultimately show ?thesis using s f fu by blast
qed

subsection \<open>One cycle and the table\<close>

lemma sql_block_no_failed_insert:
  assumes "sql_block_ok b"
  shows "SqlInsert u False \<notin> set b"
  using assms
  by (auto simp: sql_block_ok_def split: list.splits event.splits)

lemma process_new_effect:
  assumes "process_new env d uid st = (r, st')" and "\<not> sql_select uid (conn st)"
  shows "\<exists>evs. trace st' = trace st @ evs
           \<and> (filter is_sql evs = [] \<and> conn st' = conn st
              \<or> filter is_sql evs = [SqlInsert uid True, SqlCommit]
                \<and> mark_seen uid (conn st) = Inr (conn st'))"
proof (cases "format_notification env d")
  case (Inl e)
  with assms(1) show ?thesis
    by (auto simp: process_new_def emit_def)
next
  case (Inr sb)
  obtain subject body where sb: "sb = (subject, body)"
    by (cases sb)
  let ?st = "emit [LogNewListing uid] st"
  obtain r1 st1 where t: "try_block env d uid subject body ?st = (r1, st1)"
    by (cases "try_block env d uid subject body ?st")
  from assms(2) have "\<not> sql_select uid (conn ?st)"
    by (simp add: emit_def)
  from try_block_effect [OF t this] obtain evs1
    where e1: "trace st1 = trace ?st @ CallSendEmail subject body # evs1"
      and c1: "filter is_sql evs1 = [] \<and> conn st1 = conn ?st
              \<or> filter is_sql evs1 = [SqlInsert uid True, SqlCommit]
                \<and> mark_seen uid (conn ?st) = Inr (conn st1)"
    by blast
  from assms(1) Inr sb t have x: "except_Exception uid (r1, st1) = (r, st')"
    by (simp add: process_new_def)
  from except_Exception_effect [OF x] obtain evs2 where c2: "conn st' = conn st1"
    and e2: "trace st' = trace st1 @ evs2" and f2: "filter is_sql evs2 = []"
    by blast
  have "trace st' = trace st @ (LogNewListing uid # CallSendEmail subject body # evs1 @ evs2)"
    using e1 e2 by (simp add: emit_def)
  moreover have "filter is_sql (LogNewListing uid # CallSendEmail subject body # evs1 @ evs2)
      = filter is_sql evs1"
    using f2 by simp
  ultimately show ?thesis
    using c1 c2 by (auto simp: emit_def)
qed

text \<open>What one turn of the loop of line 208 does to the table and to the SQL trace.\<close>

lemma process_listing_effect:
  assumes "process_listing env l st = (r, st')"
  shows "\<exists>evs. trace st' = trace st @ evs \<and> sql_block_ok (filter is_sql evs)
           \<and> (pending (conn st) = [] \<longrightarrow> pending (conn st') = [])
           \<and> (distinct (visible_rows (conn st)) \<longrightarrow> distinct (visible_rows (conn st')))"
proof (cases l)
  case (JDict d)
  show ?thesis
  proof (cases "get_unique_id (container_repr env) d")
    case None
    with assms JDict have "st' = emit [LogSkipping l] st"
      by (simp add: process_listing_def)
    then show ?thesis
      by (simp add: emit_def sql_block_ok_def)
  next
    case (Some uid)
    show ?thesis
    proof (cases "sql_select uid (conn st)")
      case True
      with assms JDict process_listing_seen [OF Some True]
      have "st' = emit [SqlSelect uid True, LogAlreadySeen uid] st"
        by simp
      then show ?thesis
        by (simp add: emit_def sql_block_ok_def)
    next
      case False
      let ?st = "emit [SqlSelect uid False] st"
      from assms JDict process_listing_new [OF Some False]
      have p: "process_new env d uid ?st = (r, st')"
        by simp
      from False have "\<not> sql_select uid (conn ?st)"
        by (simp add: emit_def)
      from process_new_effect [OF p this] obtain evs
        where e: "trace st' = trace ?st @ evs"
          and c: "filter is_sql evs = [] \<and> conn st' = conn ?st
              \<or> filter is_sql evs = [SqlInsert uid True, SqlCommit]
                \<and> mark_seen uid (conn ?st) = Inr (conn st')"
        by blast
      have t: "trace st' = trace st @ (SqlSelect uid False # evs)"
        using e by (simp add: emit_def)
      from c show ?thesis
      proof
        assume "filter is_sql evs = [] \<and> conn st' = conn ?st"
        with t show ?thesis
          by (intro exI [of _ "SqlSelect uid False # evs"]) (simp add: emit_def sql_block_ok_def)
      next
        assume a: "filter is_sql evs = [SqlInsert uid True, SqlCommit]
                \<and> mark_seen uid (conn ?st) = Inr (conn st')"
        with False mark_seen_new [of uid "conn st"]
        have "conn st' = \<lparr>committed = committed (conn st) @ pending (conn st) @ [uid],
                          pending = []\<rparr>"
          by (simp add: emit_def)
        with t a False show ?thesis
          by (intro exI [of _ "SqlSelect uid False # evs"])
            (auto simp: sql_block_ok_def visible_rows_def sql_select_def)
      qed
    qed
  qed
qed (use assms in \<open>auto simp: process_listing_def sql_block_ok_def\<close>)

lemma process_all_effect:
  assumes "process_all env ls st = (r, st')"
  shows "\<exists>evs blocks. trace st' = trace st @ evs \<and> filter is_sql evs = concat blocks
           \<and> list_all sql_block_ok blocks
           \<and> (pending (conn st) = [] \<longrightarrow> pending (conn st') = [])
           \<and> (distinct (visible_rows (conn st)) \<longrightarrow> distinct (visible_rows (conn st')))"
  using assms
proof (induction ls arbitrary: st)
  case Nil
  then have "st' = st" by simp
  then show ?case
    by (intro exI [of _ "[]"]) simp
next
  case (Cons l ls)
  obtain r1 st1 where p: "process_listing env l st = (r1, st1)"
    by (cases "process_listing env l st")
  from process_listing_effect [OF p] obtain evs1
    where e1: "trace st1 = trace st @ evs1" and b1: "sql_block_ok (filter is_sql evs1)"
      and p1: "pending (conn st) = [] \<longrightarrow> pending (conn st1) = []"
      and d1: "distinct (visible_rows (conn st)) \<longrightarrow> distinct (visible_rows (conn st1))"
    by blast
  show ?case
  proof (cases r1)
    case (Some e)
    with Cons.prems p have "st' = st1" by simp
    with e1 b1 p1 d1 show ?thesis
      by (intro exI [of _ evs1] exI [of _ "[filter is_sql evs1]"]) simp
  next
    case None
    with Cons.prems p have "process_all env ls st1 = (r, st')" by simp
    from Cons.IH [OF this] obtain evs2 blocks
      where e2: "trace st' = trace st1 @ evs2" and f2: "filter is_sql evs2 = concat blocks"
        and b2: "list_all sql_block_ok blocks"
        and p2: "pending (conn st1) = [] \<longrightarrow> pending (conn st') = []"
        and d2: "distinct (visible_rows (conn st1)) \<longrightarrow> distinct (visible_rows (conn st'))"
      by blast
    from e1 e2 f2 b1 b2 p1 p2 d1 d2 show ?thesis
      by (intro exI [of _ "evs1 @ evs2"] exI [of _ "filter is_sql evs1 # blocks"]) simp
  qed
qed

lemma fetch_one_effect:
  assumes "fetch_one env url st = (r, st')"
  shows "st' = tick (emit [CallGet url] st)"
  using assms by (auto simp: fetch_one_def Let_def split: sum.splits if_splits)

lemma fetch_from_effect:
  assumes "fetch_from env urls results st = (r, st')"
  shows "conn st' = conn st \<and> (\<exists>evs. trace st' = trace st @ evs \<and> filter is_sql evs = [])"
  using assms
proof (induction urls arbitrary: results st)
  case Nil
  then show ?case by simp
next
  case (Cons url urls)
  obtain r1 st1 where f: "fetch_one env url st = (r1, st1)"
    by (cases "fetch_one env url st")
  from fetch_one_effect [OF f] have s1: "st1 = tick (emit [CallGet url] st)" .
  show ?case
  proof (cases r1)
    case (Inr items)
    with Cons.prems f have "fetch_from env urls (results @ items) st1 = (r, st')" by simp
    from Cons.IH [OF this] s1 show ?thesis
      by (auto simp: emit_def tick_def)
  next
    case (Inl e)
    show ?thesis
    proof (cases "is_RequestException e")
      case True
      with Cons.prems f Inl
      have "fetch_from env urls results (emit [LogFetchError url e] st1) = (r, st')" by simp
      from Cons.IH [OF this] s1 show ?thesis
        by (auto simp: emit_def tick_def)
    next
      case False
      with Cons.prems f Inl have "st' = st1" by simp
      with s1 show ?thesis
        by (simp add: emit_def tick_def)
    qed
  qed
qed

lemma check_for_new_jobs_effect:
  assumes "check_for_new_jobs env st = (r, st')"
  shows "\<exists>evs blocks. trace st' = trace st @ evs \<and> filter is_sql evs = concat blocks
           \<and> list_all sql_block_ok blocks
           \<and> (pending (conn st) = [] \<longrightarrow> pending (conn st') = [])
           \<and> (distinct (visible_rows (conn st)) \<longrightarrow> distinct (visible_rows (conn st')))"
proof -
  obtain r1 st1 where f: "fetch_listings env st = (r1, st1)"
    by (cases "fetch_listings env st")
  from fetch_from_effect [of env JSON_URLS "[]" st r1 st1] f obtain evs1
    where c1: "conn st1 = conn st" and e1: "trace st1 = trace st @ evs1"
      and f1: "filter is_sql evs1 = []"
    by (auto simp: fetch_listings_def)
  show ?thesis
  proof (cases r1)
    case (Inl e)
    with assms f have "st' = st1"
      by (simp add: check_for_new_jobs_def)
    with c1 e1 f1 show ?thesis
      by (intro exI [of _ evs1] exI [of _ "[]"]) simp
  next
    case (Inr listings)
    let ?st = "emit [LogFetched (length listings)] st1"
    from assms f Inr have "process_all env listings ?st = (r, st')"
      by (simp add: check_for_new_jobs_def)
    from process_all_effect [OF this] obtain evs2 blocks
      where e2: "trace st' = trace ?st @ evs2" and f2: "filter is_sql evs2 = concat blocks"
        and b2: "list_all sql_block_ok blocks"
        and p2: "pending (conn ?st) = [] \<longrightarrow> pending (conn st') = []"
        and d2: "distinct (visible_rows (conn ?st)) \<longrightarrow> distinct (visible_rows (conn st'))"
      by blast
    from c1 e1 f1 e2 f2 b2 p2 d2 show ?thesis
      by (intro exI [of _ "evs1 @ LogFetched (length listings) # evs2"] exI [of _ blocks])
        (simp add: emit_def)
  qed
qed

lemma blocks_no_failed_insert:
  assumes "filter is_sql evs = concat blocks" and "list_all sql_block_ok blocks"
  shows "SqlInsert u False \<notin> set evs"
proof
  assume "SqlInsert u False \<in> set evs"
  then have "SqlInsert u False \<in> set (filter is_sql evs)" by simp
  with assms(1) obtain b where "b \<in> set blocks" and "SqlInsert u False \<in> set b" by auto
  with assms(2) sql_block_no_failed_insert [of b u] show False
    by (simp add: list_all_iff)
qed

text \<open>
  C10. In every run of \<open>check_for_new_jobs\<close> the SQL statements executed fall into
  blocks, one per listing: nothing, a lookup alone, or a lookup that found no row
  followed at once by the insert of the same fingerprint, which succeeds, and the commit.
  So no insert is refused by the primary key, a cycle that starts without an open
  transaction ends without one, and a table whose rows are distinct stays so.
\<close>

theorem insert_only_after_failed_lookup:
  "\<exists>evs blocks.
      trace (snd (check_for_new_jobs env st)) = trace st @ evs
      \<and> filter is_sql evs = concat blocks \<and> list_all sql_block_ok blocks
      \<and> (\<forall>u. SqlInsert u False \<notin> set evs)
      \<and> (pending (conn st) = [] \<longrightarrow> pending (conn (snd (check_for_new_jobs env st))) = [])
      \<and> (distinct (visible_rows (conn st)) \<longrightarrow>
            distinct (visible_rows (conn (snd (check_for_new_jobs env st)))))"
proof -
  obtain r st' where c: "check_for_new_jobs env st = (r, st')"
    by (cases "check_for_new_jobs env st")
  from check_for_new_jobs_effect [OF c] obtain evs blocks
    where e: "trace st' = trace st @ evs" and f: "filter is_sql evs = concat blocks"
      and b: "list_all sql_block_ok blocks"
      and p: "pending (conn st) = [] \<longrightarrow> pending (conn st') = []"
      and d: "distinct (visible_rows (conn st)) \<longrightarrow> distinct (visible_rows (conn st'))"
    by blast
  from blocks_no_failed_insert [OF f b] have "\<forall>u. SqlInsert u False \<notin> set evs"
    by simp
  with c e f b p d show ?thesis
    by (intro exI [of _ evs] exI [of _ blocks]) simp
qed

theorem insert_only_after_failed_lookup_witness:
  "pending (conn fresh_state) = [] \<and> distinct (visible_rows (conn fresh_state))
   \<and> conn (snd (check_for_new_jobs sample_env fresh_state))
       = \<lparr>committed = [uid_a], pending = []\<rparr>
   \<and> filter is_sql (trace (snd (check_for_new_jobs sample_env fresh_state)))
       = [SqlSelect uid_a False, SqlInsert uid_a True, SqlCommit, SqlSelect uid_a True]
   \<and> (\<forall>u. SqlInsert u False \<notin> set (trace (snd (check_for_new_jobs sample_env fresh_state))))
   \<and> pending (conn (snd (check_for_new_jobs sample_env fresh_state))) = []
   \<and> distinct (visible_rows (conn (snd (check_for_new_jobs sample_env fresh_state))))"
proof -
  have p: "pending (conn fresh_state) = []" and d: "distinct (visible_rows (conn fresh_state))"
    and t: "trace fresh_state = []"
    by (simp_all add: fresh_state_def startup_def visible_rows_def)
  have c: "conn (snd (check_for_new_jobs sample_env fresh_state))
       = \<lparr>committed = [uid_a], pending = []\<rparr>"
    by code_simp
  have s: "filter is_sql (trace (snd (check_for_new_jobs sample_env fresh_state)))
       = [SqlSelect uid_a False, SqlInsert uid_a True, SqlCommit, SqlSelect uid_a True]"
    by code_simp
  from insert_only_after_failed_lookup [of sample_env fresh_state] p d t
  have "(\<forall>u. SqlInsert u False \<notin> set (trace (snd (check_for_new_jobs sample_env fresh_state))))
      \<and> pending (conn (snd (check_for_new_jobs sample_env fresh_state))) = []
      \<and> distinct (visible_rows (conn (snd (check_for_new_jobs sample_env fresh_state))))"
    by auto
  with p d c s show ?thesis by blast
qed

subsection \<open>The monitoring loop\<close>

lemma py_join_error: "py_join sep xs = Inl e \<Longrightarrow> is_Exception e"
  by (auto simp: py_join_def split: option.splits)

lemma py_iter_error: "py_iter v = Inl e \<Longrightarrow> is_Exception e"
  by (cases v) auto

lemma format_notification_error:
  assumes "raises_only_errors env" and "format_notification env l = Inl e"
  shows "is_Exception e"
  using assms
  by (auto simp: format_notification_def location_str_def date_posted_str_def term_str_def
      raises_only_errors_def Let_def split: sum.splits if_splits dest: py_join_error)

lemma notion_data_error:
  assumes "raises_only_errors env" and "notion_data env l = Inl e"
  shows "is_Exception e"
  using assms
  by (auto simp: notion_data_def location_str_def date_posted_iso_def term_str_def
      raises_only_errors_def Let_def split: sum.splits if_splits dest: py_join_error)

lemma add_to_notion_error:
  assumes "raises_only_errors env" and "add_to_notion env l st = (Some e, st')"
  shows "is_Exception e"
  using assms notion_data_error [OF assms(1), of l]
  by (auto simp: add_to_notion_def raises_only_errors_def Let_def split: sum.splits if_splits)

lemma mark_seen_error: "mark_seen uid c = Inl e \<Longrightarrow> is_Exception e"
  by (auto simp: mark_seen_def sql_insert_def split: if_splits)

lemma except_Exception_error:
  assumes "except_Exception uid (r, st) = (Some e, st')"
  shows "r = Some e \<and> \<not> is_Exception e"
  using assms by (auto simp: except_Exception_def split: option.splits if_splits)

lemma try_block_error:
  assumes "raises_only_errors env" and "try_block env l uid subject body st = (Some e, st')"
  shows "is_Exception e"
proof (cases "smtp_send env (clock st) subject body")
  case (Some e')
  with assms show ?thesis
    by (auto simp: try_block_def send_email_def raises_only_errors_def)
next
  case None
  let ?st2 = "emit [LogEmailSent (dict_get l ''company_name'') (dict_get l ''title'')]
                (tick (emit [CallSendEmail subject body] st))"
  obtain r3 st3 where a: "add_to_notion env l ?st2 = (r3, st3)"
    by (cases "add_to_notion env l ?st2")
  show ?thesis
  proof (cases r3)
    case (Some e3)
    with assms(2) None a have "e = e3"
      by (simp add: try_block_def send_email_def)
    with add_to_notion_error [OF assms(1)] a Some show ?thesis by simp
  next
    case n3: None
    with assms(2) None a have "mark_seen uid (conn st3) = Inl e"
      by (auto simp: try_block_def send_email_def split: sum.splits)
    then show ?thesis by (rule mark_seen_error)
  qed
qed

lemma process_new_error:
  assumes "raises_only_errors env" and "process_new env l uid st = (Some e, st')"
  shows "is_Exception e"
proof (cases "format_notification env l")
  case (Inl e')
  with assms(2) have "e = e'"
    by (simp add: process_new_def)
  with format_notification_error [OF assms(1) Inl] show ?thesis by simp
next
  case (Inr sb)
  obtain subject body where sb: "sb = (subject, body)" by (cases sb)
  let ?st = "emit [LogNewListing uid] st"
  obtain r1 st1 where t: "try_block env l uid subject body ?st = (r1, st1)"
    by (cases "try_block env l uid subject body ?st")
  from assms(2) Inr sb t have "except_Exception uid (r1, st1) = (Some e, st')"
    by (simp add: process_new_def)
  from except_Exception_error [OF this] have "r1 = Some e" and "\<not> is_Exception e"
    by simp_all
  with try_block_error [OF assms(1)] t show ?thesis by simp
qed

lemma process_listing_error:
  assumes "raises_only_errors env" and "process_listing env l st = (Some e, st')"
  shows "is_Exception e"
  using assms process_new_error [OF assms(1)]
  by (auto simp: process_listing_def Let_def split: json.splits option.splits if_splits)

lemma process_all_error:
  assumes "raises_only_errors env" and "process_all env ls st = (Some e, st')"
  shows "is_Exception e"
  using assms(2)
proof (induction ls arbitrary: st)
  case Nil
  then show ?case by simp
next
  case (Cons l ls)
  obtain r1 st1 where p: "process_listing env l st = (r1, st1)"
    by (cases "process_listing env l st")
  show ?case
  proof (cases r1)
    case (Some e1)
    with Cons.prems p have "e = e1" by simp
    with process_listing_error [OF assms(1)] p Some show ?thesis by simp
  next
    case None
    with Cons.prems p have "process_all env ls st1 = (Some e, st')" by simp
    then show ?thesis by (rule Cons.IH)
  qed
qed

lemma fetch_one_error:
  assumes "raises_only_errors env" and "fetch_one env url st = (Inl e, st')"
  shows "is_Exception e"
  using assms
  by (auto simp: fetch_one_def raises_only_errors_def Let_def
      split: sum.splits if_splits dest: py_iter_error)

lemma fetch_from_error:
  assumes "raises_only_errors env" and "fetch_from env urls results st = (Inl e, st')"
  shows "is_Exception e"
  using assms(2)
proof (induction urls arbitrary: results st)
  case Nil
  then show ?case by simp
next
  case (Cons url urls)
  obtain r1 st1 where f: "fetch_one env url st = (r1, st1)"
    by (cases "fetch_one env url st")
  show ?case
  proof (cases r1)
    case (Inr items)
    with Cons.prems f have "fetch_from env urls (results @ items) st1 = (Inl e, st')" by simp
    then show ?thesis by (rule Cons.IH)
  next
    case (Inl e1)
    show ?thesis
    proof (cases "is_RequestException e1")
      case True
      with Cons.prems f Inl
      have "fetch_from env urls results (emit [LogFetchError url e1] st1) = (Inl e, st')" by simp
      then show ?thesis by (rule Cons.IH)
    next
      case False
      with Cons.prems f Inl have "e = e1" by simp
      with fetch_one_error [OF assms(1)] f Inl show ?thesis by simp
    qed
  qed
qed

text \<open>Without interrupts, whatever leaves a cycle is an \<open>Exception\<close>.\<close>

lemma check_for_new_jobs_error:
  assumes "raises_only_errors env" and "check_for_new_jobs env st = (Some e, st')"
  shows "is_Exception e"
proof -
  obtain r1 st1 where f: "fetch_listings env st = (r1, st1)"
    by (cases "fetch_listings env st")
  show ?thesis
  proof (cases r1)
    case (Inl e1)
    with assms(2) f have "e = e1"
      by (simp add: check_for_new_jobs_def)
    with fetch_from_error [OF assms(1), of JSON_URLS "[]" st e1 st1] f Inl show ?thesis
      by (simp add: fetch_listings_def)
  next
    case (Inr listings)
    with assms(2) f
    have "process_all env listings (emit [LogFetched (length listings)] st1) = (Some e, st')"
      by (simp add: check_for_new_jobs_def)
    then show ?thesis by (rule process_all_error [OF assms(1)])
  qed
qed

lemma iteration_continues:
  assumes "raises_only_errors env"
  shows "fst (iteration env st) = None"
proof -
  obtain r st1 where c: "check_for_new_jobs env st = (r, st1)"
    by (cases "check_for_new_jobs env st")
  from assms have s: "\<not> sleep_interrupted env t" for t
    by (simp add: raises_only_errors_def)
  show ?thesis
  proof (cases r)
    case None
    with c s show ?thesis
      by (simp add: iteration_def sleep_step_def Let_def)
  next
    case (Some e)
    with check_for_new_jobs_error [OF assms] c have "is_Exception e" by simp
    moreover from this have "e \<noteq> KeyboardInterrupt" by auto
    ultimately show ?thesis
      using c Some s by (simp add: iteration_def sleep_step_def Let_def)
  qed
qed

lemma main_loop_runs_on:
  assumes "raises_only_errors env"
  shows "fst (main_loop env n st) = None"
proof (induction n arbitrary: st)
  case 0
  then show ?case by simp
next
  case (Suc n)
  obtain x st1 where i: "iteration env st = (x, st1)"
    by (cases "iteration env st")
  with iteration_continues [OF assms, of st] have "x = None" by simp
  with i Suc.IH [of st1] show ?case by simp
qed

lemma iteration_exit:
  assumes "iteration env st = (Some x, st')"
  shows "x = Stopped \<and> fst (check_for_new_jobs env st) = Some KeyboardInterrupt
         \<or> (\<exists>e. x = Died e \<and> \<not> is_Exception e)"
  using assms
  by (auto simp: iteration_def sleep_step_def Let_def split: prod.splits option.splits if_splits)

lemma main_loop_exit:
  assumes "main_loop env n st = (Some x, st')"
  shows "x = Stopped \<or> (\<exists>e. x = Died e \<and> \<not> is_Exception e)"
  using assms
proof (induction n arbitrary: st)
  case 0
  then show ?case by simp
next
  case (Suc n)
  obtain y st1 where i: "iteration env st = (y, st1)"
    by (cases "iteration env st")
  show ?case
  proof (cases y)
    case None
    with Suc.prems i have "main_loop env n st1 = (Some x, st')" by simp
    then show ?thesis by (rule Suc.IH)
  next
    case (Some z)
    with Suc.prems i have "iteration env st = (Some x, st')" by simp
    from iteration_exit [OF this] show ?thesis by blast
  qed
qed

text \<open>
  C9. An \<open>Exception\<close> that leaves \<open>check_for_new_jobs\<close> is logged by line 314; the turn
  then sleeps and, unless the sleep itself is interrupted, the loop goes on with the
  next cycle. A turn ends the loop through the \<open>break\<close> exactly when the cycle raised
  \<open>KeyboardInterrupt\<close>. However many turns are run, the loop is only ever left by that
  \<open>break\<close> or by an exception that is no \<open>Exception\<close>; and when no interrupt arrives it is
  still running after any number of turns.
\<close>

theorem exception_in_cycle_survived:
  "(check_for_new_jobs env st = (Some e, st1) \<and> is_Exception e \<longrightarrow>
      iteration env st = sleep_step env (emit [LogErrorChecking e] st1)
      \<and> (\<not> sleep_interrupted env (clock st1) \<longrightarrow>
           main_loop env (Suc n) st
           = main_loop env n (tick (emit [LogErrorChecking e, LogSleeping, CallSleep] st1))))
   \<and> (fst (iteration env st) = Some Stopped
        \<longleftrightarrow> fst (check_for_new_jobs env st) = Some KeyboardInterrupt)
   \<and> (fst (main_loop env n st) = Some x \<longrightarrow>
        x = Stopped \<or> (\<exists>e'. x = Died e' \<and> \<not> is_Exception e'))
   \<and> (raises_only_errors env \<longrightarrow> fst (main_loop env n st) = None)"
proof (intro conjI impI)
  assume a: "check_for_new_jobs env st = (Some e, st1) \<and> is_Exception e"
  then have ne: "e \<noteq> KeyboardInterrupt" by auto
  with a show i: "iteration env st = sleep_step env (emit [LogErrorChecking e] st1)"
    by (simp add: iteration_def)
  assume "\<not> sleep_interrupted env (clock st1)"
  with i show "main_loop env (Suc n) st
           = main_loop env n (tick (emit [LogErrorChecking e, LogSleeping, CallSleep] st1))"
    by (simp add: sleep_step_def emit_def tick_def Let_def)
next
  show "fst (iteration env st) = Some Stopped
        \<longleftrightarrow> fst (check_for_new_jobs env st) = Some KeyboardInterrupt"
    by (auto simp: iteration_def sleep_step_def Let_def split: prod.splits option.splits if_splits)
next
  assume "fst (main_loop env n st) = Some x"
  then obtain st' where "main_loop env n st = (Some x, st')"
    by (cases "main_loop env n st") simp
  from main_loop_exit [OF this] show "x = Stopped \<or> (\<exists>e'. x = Died e' \<and> \<not> is_Exception e')" .
next
  assume "raises_only_errors env"
  then show "fst (main_loop env n st) = None" by (rule main_loop_runs_on)
qed

theorem exception_in_cycle_survived_witness:
  "check_for_new_jobs broken_feed_env fresh_state
     = (Some TypeError, tick (emit [CallGet (JSON_URLS ! 0)] fresh_state))
   \<and> is_Exception TypeError
   \<and> iteration broken_feed_env fresh_state
     = sleep_step broken_feed_env
         (emit [LogErrorChecking TypeError] (tick (emit [CallGet (JSON_URLS ! 0)] fresh_state)))
   \<and> main_loop broken_feed_env (Suc 2) fresh_state
     = main_loop broken_feed_env 2
         (tick (emit [LogErrorChecking TypeError, LogSleeping, CallSleep]
            (tick (emit [CallGet (JSON_URLS ! 0)] fresh_state))))
   \<and> raises_only_errors broken_feed_env
   \<and> fst (main_loop broken_feed_env (Suc 2) fresh_state) = None
   \<and> fst (check_for_new_jobs interrupted_env fresh_state) = Some KeyboardInterrupt
   \<and> fst (iteration interrupted_env fresh_state) = Some Stopped
   \<and> fst (main_loop interrupted_env (Suc 2) fresh_state) = Some Stopped"
proof -
  let ?st1 = "tick (emit [CallGet (JSON_URLS ! 0)] fresh_state)"
  have c: "check_for_new_jobs broken_feed_env fresh_state = (Some TypeError, ?st1)"
    by (simp add: check_for_new_jobs_def fetch_listings_def JSON_URLS_def fetch_one_def
        broken_feed_env_def ok_response_def bad_status_def)
  have x: "is_Exception TypeError"
    by simp
  have s: "\<not> sleep_interrupted broken_feed_env t" for t
    by (simp add: broken_feed_env_def sample_env_def)
  have r: "raises_only_errors broken_feed_env"
    by (simp add: raises_only_errors_def broken_feed_env_def sample_env_def ok_response_def
        split: json.splits)
  have k: "fst (check_for_new_jobs interrupted_env fresh_state) = Some KeyboardInterrupt"
    by (simp add: check_for_new_jobs_def fetch_listings_def JSON_URLS_def fetch_one_def
        interrupted_env_def)
  have m: "fst (main_loop interrupted_env (Suc 2) fresh_state) = Some Stopped"
    by code_simp
  note broken = exception_in_cycle_survived
      [of broken_feed_env fresh_state TypeError ?st1 2 Stopped]
  note interrupted = exception_in_cycle_survived
      [of interrupted_env fresh_state TypeError ?st1 "Suc 2" Stopped]
  from broken c x have i: "iteration broken_feed_env fresh_state
     = sleep_step broken_feed_env (emit [LogErrorChecking TypeError] ?st1)"
    by blast
  from broken c x s have l: "main_loop broken_feed_env (Suc 2) fresh_state
     = main_loop broken_feed_env 2
         (tick (emit [LogErrorChecking TypeError, LogSleeping, CallSleep] ?st1))"
    by blast
  from exception_in_cycle_survived [of broken_feed_env fresh_state TypeError ?st1 "Suc 2" Stopped] r
  have n: "fst (main_loop broken_feed_env (Suc 2) fresh_state) = None"
    by blast
  from interrupted k have j: "fst (iteration interrupted_env fresh_state) = Some Stopped"
    by blast
  from interrupted m have "Stopped = Stopped \<or> (\<exists>e'. Stopped = Died e' \<and> \<not> is_Exception e')"
    by blast
  with c x i l r n k j m show ?thesis
    by blast
qed

end
